theory Spec2Isabelle
  imports Complex_Main
begin

section \<open>Python strings\<close>

text \<open>
  A Python \<open>str\<close> is a sequence of Unicode code points, so a string is a list of
  code points (natural numbers).  \<open>u\<close> turns an ASCII literal into such a string.
\<close>

type_synonym pystr = "nat list"

definition u :: "string \<Rightarrow> pystr" where
  "u s = map of_char s"

text \<open>
  \<open>str.strip()\<close>, \<open>str.isspace()\<close> and the regular expression class \<open>\s\<close> (on \<open>str\<close>
  patterns) all use the same set of whitespace code points of CPython.
\<close>

definition is_space :: "nat \<Rightarrow> bool" where
  "is_space c \<longleftrightarrow>
     (9 \<le> c \<and> c \<le> 13) \<or> (28 \<le> c \<and> c \<le> 32) \<or> c = 133 \<or> c = 160 \<or> c = 5760 \<or>
     (8192 \<le> c \<and> c \<le> 8202) \<or> c = 8232 \<or> c = 8233 \<or> c = 8239 \<or> c = 8287 \<or>
     c = 12288"

text \<open>The line boundaries of \<open>str.splitlines()\<close>.\<close>

definition is_linebreak :: "nat \<Rightarrow> bool" where
  "is_linebreak c \<longleftrightarrow>
     (10 \<le> c \<and> c \<le> 13) \<or> (28 \<le> c \<and> c \<le> 30) \<or> c = 133 \<or> c = 8232 \<or> c = 8233"

text \<open>\<open>s.strip(chars)\<close>: remove the leading and the trailing characters that satisfy
  the predicate.\<close>

definition strip_where :: "(nat \<Rightarrow> bool) \<Rightarrow> pystr \<Rightarrow> pystr" where
  "strip_where P s = rev (dropWhile P (rev (dropWhile P s)))"

text \<open>\<open>s.strip()\<close>.\<close>

definition strip :: "pystr \<Rightarrow> pystr" where
  "strip s = strip_where is_space s"

text \<open>\<open>s.strip("- ")\<close>: the argument is a set of characters, here the hyphen and the
  space.\<close>

definition strip_dash_space :: "pystr \<Rightarrow> pystr" where
  "strip_dash_space s = strip_where (\<lambda>c. c = 45 \<or> c = 32) s"

text \<open>\<open>s.startswith(p)\<close>.\<close>

fun startswith :: "pystr \<Rightarrow> pystr \<Rightarrow> bool" where
  "startswith s [] = True"
| "startswith [] (p # ps) = False"
| "startswith (c # cs) (p # ps) = (c = p \<and> startswith cs ps)"

text \<open>\<open>p in s\<close> on strings: \<open>p\<close> occurs in \<open>s\<close> as a contiguous substring.\<close>

fun contains :: "pystr \<Rightarrow> pystr \<Rightarrow> bool" where
  "contains [] p = (p = [])"
| "contains (c # cs) p = (startswith (c # cs) p \<or> contains cs p)"

text \<open>
  \<open>s.splitlines()\<close>: the lines of \<open>s\<close> without their line boundaries; \<open>\r\n\<close> is one
  boundary, and a boundary at the very end opens no further line.  The first argument
  is the line read so far.
\<close>

fun splitlines_from :: "pystr \<Rightarrow> pystr \<Rightarrow> pystr list" where
  "splitlines_from cur [] = (if cur = [] then [] else [cur])"
| "splitlines_from cur [c] = (if is_linebreak c then [cur] else [cur @ [c]])"
| "splitlines_from cur (c # d # cs) =
     (if c = 13 \<and> d = 10 then cur # splitlines_from [] cs
      else if is_linebreak c then cur # splitlines_from [] (d # cs)
      else splitlines_from (cur @ [c]) (d # cs))"

definition splitlines :: "pystr \<Rightarrow> pystr list" where
  "splitlines s = splitlines_from [] s"

text \<open>\<open>sep.join(xs)\<close>.\<close>

fun join :: "pystr \<Rightarrow> pystr list \<Rightarrow> pystr" where
  "join sep [] = []"
| "join sep [x] = x"
| "join sep (x # y # ys) = x @ sep @ join sep (y # ys)"

text \<open>\<open>str(n)\<close> for an integer: decimal digits, with a minus sign when negative.\<close>

fun nat_str :: "nat \<Rightarrow> pystr" where
  "nat_str n = (if n < 10 then [48 + n] else nat_str (n div 10) @ [48 + n mod 10])"

definition int_str :: "int \<Rightarrow> pystr" where
  "int_str i = (if i < 0 then 45 # nat_str (nat (- i)) else nat_str (nat i))"

section \<open>Parsed JSON values\<close>

text \<open>
  What \<open>json.loads\<close> returns: \<open>None\<close>, a \<open>bool\<close>, an \<open>int\<close>, a \<open>float\<close>, a \<open>str\<close>, a
  \<open>list\<close> or a \<open>dict\<close> with string keys.  A float is carried as the text \<open>repr\<close>
  gives it (\<open>1.5\<close>, \<open>1e+16\<close>, \<open>nan\<close>), which is all the program observes of it.  A dict is
  the list of its items in insertion order; its keys are distinct.
\<close>

datatype json =
    JNull
  | JBool bool
  | JInt int
  | JFloat pystr
  | JStr pystr
  | JList "json list"
  | JObj "(pystr \<times> json) list"

text \<open>
  \<open>repr(v)\<close>.  The \<open>repr\<close> of a string (quoting and escaping, which depends on the
  Unicode database) is the parameter \<open>R\<close>.
\<close>

primrec py_repr :: "(pystr \<Rightarrow> pystr) \<Rightarrow> json \<Rightarrow> pystr" where
  "py_repr R JNull = u ''None''"
| "py_repr R (JBool b) = (if b then u ''True'' else u ''False'')"
| "py_repr R (JInt i) = int_str i"
| "py_repr R (JFloat r) = r"
| "py_repr R (JStr s) = R s"
| "py_repr R (JList xs) = u ''['' @ join (u '', '') (map (py_repr R) xs) @ u '']''"
| "py_repr R (JObj kvs) =
     u ''{'' @ join (u '', '')
       (map (\<lambda>kv. R (fst kv) @ u '': '' @ snd kv) (map (map_prod id (py_repr R)) kvs)) @ u ''}''"

text \<open>\<open>str(v)\<close>: a string is itself, every other value is its \<open>repr\<close>.\<close>

definition py_str :: "(pystr \<Rightarrow> pystr) \<Rightarrow> json \<Rightarrow> pystr" where
  "py_str R v = (case v of JStr s \<Rightarrow> s | _ \<Rightarrow> py_repr R v)"

text \<open>\<open>d.get(key, default)\<close> on the items of a dict.\<close>

definition dict_get :: "(pystr \<times> json) list \<Rightarrow> pystr \<Rightarrow> json \<Rightarrow> json" where
  "dict_get d k dflt = (case map_of d k of Some v \<Rightarrow> v | None \<Rightarrow> dflt)"

section \<open>List coercion\<close>

text \<open>
  \<^verbatim>\<open>
  def coerce_list(value: object) -> List[str]:
      if isinstance(value, list):
          return [str(item).strip() for item in value if str(item).strip()]
      if isinstance(value, str):
          return [line.strip("- ").strip() for line in value.splitlines() if line.strip()]
      return []
  \<close>
\<close>

definition coerce_list :: "(pystr \<Rightarrow> pystr) \<Rightarrow> json \<Rightarrow> pystr list" where
  "coerce_list R v =
     (case v of
        JList items \<Rightarrow> map (\<lambda>item. strip (py_str R item)) (filter (\<lambda>item. strip (py_str R item) \<noteq> []) items)
      | JStr s \<Rightarrow> map (\<lambda>line. strip (strip_dash_space line)) (filter (\<lambda>line. strip line \<noteq> []) (splitlines s))
      | _ \<Rightarrow> [])"

text \<open>A \<open>List[str]\<close> read back as a value.\<close>

definition str_list :: "pystr list \<Rightarrow> json" where
  "str_list xs = JList (map JStr xs)"

section \<open>Extracting the JSON text\<close>

text \<open>
  \<^verbatim>\<open>
  def extract_json(text: str) -> str:
      cleaned = text.strip()
      if cleaned.startswith("```"):
          cleaned = re.sub(r"^```(?:json)?\s*", "", cleaned)
          cleaned = re.sub(r"\s*```$", "", cleaned)
      match = re.search(r"\{.*\}", cleaned, flags=re.DOTALL)
      if match:
          return match.group(0)
      return cleaned
  \<close>
  The three regular expressions are written out as list functions.

  The first one is anchored at the start of the string (no \<open>MULTILINE\<close> flag), so it
  matches at most once: three backticks, then \<open>json\<close> when it follows, then all the
  whitespace that follows.
\<close>

definition strip_open_fence :: "pystr \<Rightarrow> pystr" where
  "strip_open_fence s =
     (if startswith s (u ''```'') then
        (let r = drop 3 s;
             r' = (if startswith r (u ''json'') then drop 4 r else r)
         in dropWhile is_space r')
      else s)"

text \<open>
  The second one ends at \<open>$\<close>, which is the end of the string or the place before a
  newline that ends the string; the leftmost match takes the three backticks there and
  all the whitespace before them.
\<close>

definition strip_close_fence :: "pystr \<Rightarrow> pystr" where
  "strip_close_fence s =
     (let r = rev s in
      if startswith r (u ''```'') then rev (dropWhile is_space (drop 3 r))
      else if startswith r (10 # u ''```'') then rev (10 # dropWhile is_space (drop 4 r))
      else s)"

text \<open>
  The third one, with \<open>DOTALL\<close>: the leftmost match starts at the first \<open>{\<close> (code point
  123) that has a \<open>}\<close> (code point 125) after it, and the greedy \<open>.*\<close> runs to the last
  \<open>}\<close> of the string.  When the first \<open>{\<close> has no \<open>}\<close> after it, no later one has.
\<close>

definition search_braces :: "pystr \<Rightarrow> pystr option" where
  "search_braces s =
     (let t = dropWhile (\<lambda>c. c \<noteq> 123) s in
      if t = [] then None
      else (let body = rev (dropWhile (\<lambda>c. c \<noteq> 125) (rev (tl t))) in
            if body = [] then None else Some (123 # body)))"

definition strip_fences :: "pystr \<Rightarrow> pystr" where
  "strip_fences text =
     (let cleaned = strip text in
      if startswith cleaned (u ''```'') then strip_close_fence (strip_open_fence cleaned)
      else cleaned)"

definition extract_json :: "pystr \<Rightarrow> pystr" where
  "extract_json text =
     (let cleaned = strip_fences text in
      case search_braces cleaned of Some m \<Rightarrow> m | None \<Rightarrow> cleaned)"

section \<open>Normalizing the payload\<close>

text \<open>The fields \<open>rewrites\<close> and \<open>keywords\<close> carry a prime: the plain names are reserved
  words of Isabelle.\<close>

record SectionFeedback =
  strengths :: "pystr list"
  weaknesses :: "pystr list"
  rewrites' :: "pystr list"
  keywords' :: "pystr list"

record ReviewResponse =
  overview :: pystr
  match_level :: pystr
  sections :: "(pystr \<times> SectionFeedback) list"
  top_fixes :: "pystr list"
  jd_keywords :: "pystr list"
  insertion_guidance :: "pystr list"
  missing_info :: "pystr list"
  resume_outline :: "pystr list"

text \<open>An exception: its class and the text \<open>str(exc)\<close> gives.\<close>

datatype pyexc = PyExc (exc_type: pystr) (exc_str: pystr)

text \<open>
  \<^verbatim>\<open>
  def normalize_section(payload: dict, key: str) -> SectionFeedback:
      section = payload.get("sections", {}).get(key, {}) if isinstance(payload.get("sections"), dict) else {}
      if not isinstance(section, dict):
          section = {}
      return SectionFeedback(
          strengths=coerce_list(section.get("strengths", [])), ...
  \<close>
\<close>

definition normalize_section ::
  "(pystr \<Rightarrow> pystr) \<Rightarrow> (pystr \<times> json) list \<Rightarrow> pystr \<Rightarrow> SectionFeedback" where
  "normalize_section R payload key =
     (let section = (case map_of payload (u ''sections'') of
                       Some (JObj secs) \<Rightarrow> dict_get secs key (JObj [])
                     | _ \<Rightarrow> JObj []);
          section = (case section of JObj d \<Rightarrow> d | _ \<Rightarrow> [])
      in \<lparr> strengths = coerce_list R (dict_get section (u ''strengths'') (JList [])),
           weaknesses = coerce_list R (dict_get section (u ''weaknesses'') (JList [])),
           rewrites' = coerce_list R (dict_get section (u ''rewrites'') (JList [])),
           keywords' = coerce_list R (dict_get section (u ''keywords'') (JList [])) \<rparr>)"

text \<open>The class name in the \<open>AttributeError\<close> that \<open>payload.get\<close> raises when the
  parsed value is not a dict.\<close>

fun type_name :: "json \<Rightarrow> pystr" where
  "type_name JNull = u ''NoneType''"
| "type_name (JBool b) = u ''bool''"
| "type_name (JInt i) = u ''int''"
| "type_name (JFloat r) = u ''float''"
| "type_name (JStr s) = u ''str''"
| "type_name (JList xs) = u ''list''"
| "type_name (JObj d) = u ''dict''"

definition missing_fields :: pyexc where
  "missing_fields = PyExc (u ''ValueError'') (u ''Missing required fields in model output'')"

text \<open>Code point 39 is the apostrophe.\<close>

definition no_get :: "json \<Rightarrow> pyexc" where
  "no_get v = PyExc (u ''AttributeError'')
     ([39] @ type_name v @ [39] @ u '' object has no attribute '' @ [39] @ u ''get'' @ [39])"

text \<open>
  \<^verbatim>\<open>
  def normalize_response(payload: dict, require_content: bool = True) -> ReviewResponse:
      overview = str(payload.get("overview", "")).strip()
      match_level = str(payload.get("match_level", "")).strip()
      top_fixes = coerce_list(payload.get("top_fixes", []))
      sections = { "profile_summary": normalize_section(payload, "profile_summary"), ... }
      jd_keywords = coerce_list(payload.get("jd_keywords", []))
      ...
      if require_content and (not overview or not match_level or not top_fixes):
          raise ValueError("Missing required fields in model output")
      return ReviewResponse(overview=overview, ..., top_fixes=top_fixes[:5], ...)
  \<close>
  The caller passes whatever \<open>json.loads\<close> returned; on a value that is not a dict the
  first \<open>payload.get\<close> raises.
\<close>

definition normalize_dict ::
  "(pystr \<Rightarrow> pystr) \<Rightarrow> (pystr \<times> json) list \<Rightarrow> bool \<Rightarrow> pyexc + ReviewResponse" where
  "normalize_dict R payload require_content =
     (let overview' = strip (py_str R (dict_get payload (u ''overview'') (JStr [])));
          match_level' = strip (py_str R (dict_get payload (u ''match_level'') (JStr [])));
          top_fixes' = coerce_list R (dict_get payload (u ''top_fixes'') (JList []));
          sections' = map (\<lambda>key. (key, normalize_section R payload key))
            [u ''profile_summary'', u ''experience'', u ''projects'', u ''skills'', u ''education''];
          jd_keywords' = coerce_list R (dict_get payload (u ''jd_keywords'') (JList []));
          insertion_guidance' = coerce_list R (dict_get payload (u ''insertion_guidance'') (JList []));
          missing_info' = coerce_list R (dict_get payload (u ''missing_info'') (JList []));
          resume_outline' = coerce_list R (dict_get payload (u ''resume_outline'') (JList []))
      in if require_content \<and> (overview' = [] \<or> match_level' = [] \<or> top_fixes' = [])
         then Inl missing_fields
         else Inr \<lparr> overview = overview', match_level = match_level', sections = sections',
                    top_fixes = take 5 top_fixes', jd_keywords = jd_keywords',
                    insertion_guidance = insertion_guidance', missing_info = missing_info',
                    resume_outline = resume_outline' \<rparr>)"

definition normalize_response ::
  "(pystr \<Rightarrow> pystr) \<Rightarrow> json \<Rightarrow> bool \<Rightarrow> pyexc + ReviewResponse" where
  "normalize_response R payload require_content =
     (case payload of
        JObj d \<Rightarrow> normalize_dict R d require_content
      | _ \<Rightarrow> Inl (no_get payload))"

section \<open>Process state and rate limiting\<close>

text \<open>
  The module keeps two globals that the handlers change: \<open>ACTIVE_MODEL_NAME\<close> and
  \<open>request_log\<close>, a \<open>defaultdict(deque)\<close> from client address to timestamps.  The
  field \<open>calls\<close> is not a variable of the program: it is the history of the
  \<open>generate_content\<close> calls made so far, each with the exception that ended its \<open>try\<close>
  block (\<open>None\<close> when the block returned).
\<close>

datatype call = Call (call_model: pystr) (call_prompt: pystr) (call_error: "pyexc option")

record state =
  ACTIVE_MODEL_NAME :: "pystr option"
  request_log :: "pystr \<rightharpoonup> real list"
  calls :: "call list"

datatype http_error = HTTPException (status_code: nat) (detail: pystr)

definition RATE_LIMIT :: nat where
  "RATE_LIMIT = 30"

definition RATE_WINDOW_SECONDS :: real where
  "RATE_WINDOW_SECONDS = 60"

text \<open>
  \<^verbatim>\<open>
  while queue and now - queue[0] > RATE_WINDOW_SECONDS:
      queue.popleft()
  \<close>
  Timestamps are the floats of \<open>time.time()\<close>, read here as the real numbers they
  denote.
\<close>

fun prune :: "real \<Rightarrow> real list \<Rightarrow> real list" where
  "prune now [] = []"
| "prune now (t # queue) =
     (if now - t > RATE_WINDOW_SECONDS then prune now queue else t # queue)"

text \<open>
  \<^verbatim>\<open>
  def enforce_rate_limit(client_ip: str) -> None:
      now = time.time()
      queue = request_log[client_ip]
      while queue and now - queue[0] > RATE_WINDOW_SECONDS:
          queue.popleft()
      if len(queue) >= RATE_LIMIT:
          raise HTTPException(status_code=429, detail="Rate limit exceeded. Try again soon.")
      queue.append(now)
  \<close>
  The clock reading \<open>now\<close> is an argument.  Reading \<open>request_log[client_ip]\<close> creates
  the empty queue of a client not seen before, and the pruning stays in the table when
  the call is rejected.
\<close>

definition queue_of :: "state \<Rightarrow> pystr \<Rightarrow> real list" where
  "queue_of s client_ip = (case request_log s client_ip of Some q \<Rightarrow> q | None \<Rightarrow> [])"

definition rate_limited :: http_error where
  "rate_limited = HTTPException 429 (u ''Rate limit exceeded. Try again soon.'')"

definition enforce_rate_limit :: "real \<Rightarrow> pystr \<Rightarrow> state \<Rightarrow> (http_error + unit) \<times> state" where
  "enforce_rate_limit now client_ip s =
     (let queue = prune now (queue_of s client_ip) in
      if length queue \<ge> RATE_LIMIT
      then (Inl rate_limited, s\<lparr>request_log := (request_log s)(client_ip \<mapsto> queue)\<rparr>)
      else (Inr (), s\<lparr>request_log := (request_log s)(client_ip \<mapsto> queue @ [now])\<rparr>))"

text \<open>A client's calls one after the other, at the given clock readings: the results
  in order and the state at the end.\<close>

fun enforce_all :: "real list \<Rightarrow> pystr \<Rightarrow> state \<Rightarrow> (http_error + unit) list \<times> state" where
  "enforce_all [] client_ip s = ([], s)"
| "enforce_all (now # nows) client_ip s =
     (case enforce_rate_limit now client_ip s of
        (r, s') \<Rightarrow> (case enforce_all nows client_ip s' of (rs, s'') \<Rightarrow> (r # rs, s'')))"

section \<open>The model invoker\<close>

text \<open>
  What the program takes from outside: \<open>repr\<close> on strings, \<open>json.loads\<close>, the remote
  generation call, the environment variable \<open>GEMINI_MODEL\<close> and the catalogue
  \<open>genai.list_models()\<close> read at import.  \<open>generate_content E n model prompt\<close> is the
  outcome of \<open>genai.GenerativeModel(model).generate_content(prompt)\<close> followed by
  \<open>response.text\<close> when \<open>n\<close> calls were made before: the exception raised, or the text
  (which may be \<open>None\<close>).
\<close>

record env =
  repr_str :: "pystr \<Rightarrow> pystr"
  json_loads :: "pystr \<Rightarrow> pyexc + json"
  generate_content :: "nat \<Rightarrow> pystr \<Rightarrow> pystr \<Rightarrow> pyexc + pystr option"
  GEMINI_MODEL :: "pystr option"
  list_models :: "pyexc + (pystr \<times> pystr list) list"

definition DEFAULT_MODELS :: "pystr list" where
  "DEFAULT_MODELS =
     [u ''models/gemini-1.5-flash-latest'',
      u ''models/gemini-1.5-flash'',
      u ''models/gemini-1.5-pro-latest'',
      u ''gemini-1.5-flash-latest'',
      u ''gemini-1.5-flash'',
      u ''gemini-1.5-pro-latest'']"

text \<open>\<open>s.split(",")\<close>; code point 44 is the comma.\<close>

fun split_comma_from :: "pystr \<Rightarrow> pystr \<Rightarrow> pystr list" where
  "split_comma_from cur [] = [cur]"
| "split_comma_from cur (c # cs) =
     (if c = 44 then cur # split_comma_from [] cs else split_comma_from (cur @ [c]) cs)"

text \<open>\<^verbatim>\<open>ENV_MODELS = [item.strip() for item in os.getenv("GEMINI_MODEL", "").split(",") if item.strip()]\<close>\<close>

definition ENV_MODELS :: "env \<Rightarrow> pystr list" where
  "ENV_MODELS E =
     map strip (filter (\<lambda>item. strip item \<noteq> [])
       (split_comma_from [] (case GEMINI_MODEL E of Some v \<Rightarrow> v | None \<Rightarrow> [])))"

text \<open>
  \<^verbatim>\<open>
  def fetch_available_models() -> List[str]:
      try:
          models = [model.name for model in genai.list_models()
                    if "generateContent" in model.supported_generation_methods]
          return models
      except Exception as exc:
          return []
  \<close>
  A catalogue entry is the model's name and its supported generation methods.
\<close>

definition fetch_available_models :: "env \<Rightarrow> pystr list" where
  "fetch_available_models E =
     (case list_models E of
        Inl exc \<Rightarrow> []
      | Inr models \<Rightarrow> map fst (filter (\<lambda>model. u ''generateContent'' \<in> set (snd model)) models))"

text \<open>\<^verbatim>\<open>MODEL_CANDIDATES = ENV_MODELS or fetch_available_models() or DEFAULT_MODELS\<close>\<close>

definition MODEL_CANDIDATES :: "env \<Rightarrow> pystr list" where
  "MODEL_CANDIDATES E =
     (if ENV_MODELS E \<noteq> [] then ENV_MODELS E
      else if fetch_available_models E \<noteq> [] then fetch_available_models E
      else DEFAULT_MODELS)"

text \<open>\<^verbatim>\<open>"not found" in message or "not supported" in message\<close>\<close>

definition unavailable :: "pystr \<Rightarrow> bool" where
  "unavailable message \<longleftrightarrow> contains message (u ''not found'') \<or> contains message (u ''not supported'')"

definition no_model_detail :: pystr where
  "no_model_detail = u ''No available Gemini model found. '' @ u ''Set GEMINI_MODEL in the .env file.''"

definition parse_detail :: pystr where
  "parse_detail = u ''AI response could not be parsed. Please try again.''"

text \<open>
  \<^verbatim>\<open>
  detail = (
      "No available Gemini model found. " "Set GEMINI_MODEL in the .env file."
      if last_error and ("not found" in str(last_error) or "not supported" in str(last_error))
      else "AI response could not be parsed. Please try again.")
  \<close>
\<close>

definition exhausted_detail :: "pyexc option \<Rightarrow> pystr" where
  "exhausted_detail last_error =
     (if (case last_error of None \<Rightarrow> False | Some exc \<Rightarrow> unavailable (exc_str exc))
      then no_model_detail else parse_detail)"

definition record_call :: "pystr \<Rightarrow> pystr \<Rightarrow> pyexc option \<Rightarrow> state \<Rightarrow> state" where
  "record_call model_name prompt outcome s =
     s\<lparr>calls := calls s @ [Call model_name prompt outcome]\<rparr>"

text \<open>
  The body of the \<open>try\<close> block for one candidate:
  \<^verbatim>\<open>
  response = genai.GenerativeModel(model_name).generate_content(prompt)
  raw_text = response.text or ""
  extracted = extract_json(raw_text)
  payload = json.loads(extracted)
  ACTIVE_MODEL_NAME = model_name
  return normalize_response(payload, require_content=require_content)
  \<close>
  The result is the exception that the \<open>except Exception\<close> clause catches, or the
  response returned.
\<close>

definition try_candidate ::
  "env \<Rightarrow> bool \<Rightarrow> pystr \<Rightarrow> pystr \<Rightarrow> state \<Rightarrow> (pyexc + ReviewResponse) \<times> state" where
  "try_candidate E require_content prompt model_name s =
     (case generate_content E (length (calls s)) model_name prompt of
        Inl exc \<Rightarrow> (Inl exc, record_call model_name prompt (Some exc) s)
      | Inr text \<Rightarrow>
          (let raw_text = (case text of Some t \<Rightarrow> t | None \<Rightarrow> []);
               extracted = extract_json raw_text
           in case json_loads E extracted of
                Inl exc \<Rightarrow> (Inl exc, record_call model_name prompt (Some exc) s)
              | Inr payload \<Rightarrow>
                  (let s' = s\<lparr>ACTIVE_MODEL_NAME := Some model_name\<rparr> in
                   case normalize_response (repr_str E) payload require_content of
                     Inl exc \<Rightarrow> (Inl exc, record_call model_name prompt (Some exc) s')
                   | Inr r \<Rightarrow> (Inr r, record_call model_name prompt None s'))))"

text \<open>
  Two readings of one pass through the \<open>try\<close> block, as functions of the number \<open>n\<close> of
  calls made before it: the payload when the generation call and \<open>json.loads\<close> both
  return, and the way the block ends (the exception caught, or the response returned).
\<close>

definition parsed_payload :: "env \<Rightarrow> nat \<Rightarrow> pystr \<Rightarrow> pystr \<Rightarrow> json option" where
  "parsed_payload E n model_name prompt =
     (case generate_content E n model_name prompt of
        Inl exc \<Rightarrow> None
      | Inr text \<Rightarrow>
          (case json_loads E (extract_json (case text of Some t \<Rightarrow> t | None \<Rightarrow> [])) of
             Inl exc \<Rightarrow> None
           | Inr payload \<Rightarrow> Some payload))"

definition attempt_result ::
  "env \<Rightarrow> bool \<Rightarrow> nat \<Rightarrow> pystr \<Rightarrow> pystr \<Rightarrow> pyexc + ReviewResponse" where
  "attempt_result E require_content n model_name prompt =
     (case generate_content E n model_name prompt of
        Inl exc \<Rightarrow> Inl exc
      | Inr text \<Rightarrow>
          (case json_loads E (extract_json (case text of Some t \<Rightarrow> t | None \<Rightarrow> [])) of
             Inl exc \<Rightarrow> Inl exc
           | Inr payload \<Rightarrow> normalize_response (repr_str E) payload require_content))"

text \<open>
  The inner loop \<open>for model_name in MODEL_CANDIDATES\<close>.  The \<open>except\<close> clause stores the
  exception in \<open>last_error\<close> and goes on to the next candidate whatever the message is
  (the two branches differ in the warning they log only).  The result is the response
  returned, if any, with the value of \<open>last_error\<close>.
\<close>

fun candidates_loop ::
  "env \<Rightarrow> bool \<Rightarrow> pystr \<Rightarrow> pystr list \<Rightarrow> pyexc option \<Rightarrow> state
     \<Rightarrow> (ReviewResponse option \<times> pyexc option) \<times> state" where
  "candidates_loop E require_content prompt [] last_error s = ((None, last_error), s)"
| "candidates_loop E require_content prompt (model_name # rest) last_error s =
     (case try_candidate E require_content prompt model_name s of
        (Inr r, s') \<Rightarrow> ((Some r, last_error), s')
      | (Inl exc, s') \<Rightarrow> candidates_loop E require_content prompt rest (Some exc) s')"

definition retry_suffix :: pystr where
  "retry_suffix =
     u ''\<newline>\<newline>Return ONLY valid JSON with keys overview, match_level, sections, top_fixes, '' @
     u ''jd_keywords, insertion_guidance, missing_info, resume_outline. '' @
     u ''Do not wrap in code fences.''"

text \<open>
  The outer loop \<open>for attempt in range(retries + 1)\<close>, over the attempts left.  When the
  range is used up without the \<open>attempt == retries\<close> test having held (which happens for
  a negative \<open>retries\<close> only), the function ends without \<open>return\<close> and gives \<open>None\<close>.
\<close>

fun attempts_loop ::
  "env \<Rightarrow> bool \<Rightarrow> int \<Rightarrow> int list \<Rightarrow> pystr \<Rightarrow> pyexc option \<Rightarrow> state
     \<Rightarrow> (http_error + ReviewResponse option) \<times> state" where
  "attempts_loop E require_content retries [] prompt last_error s = (Inr None, s)"
| "attempts_loop E require_content retries (attempt # rest) prompt last_error s =
     (case candidates_loop E require_content prompt (MODEL_CANDIDATES E) last_error s of
        ((Some r, last_error'), s') \<Rightarrow> (Inr (Some r), s')
      | ((None, last_error'), s') \<Rightarrow>
          if attempt = retries
          then (Inl (HTTPException 500 (exhausted_detail last_error')), s')
          else attempts_loop E require_content retries rest (prompt @ retry_suffix) last_error' s')"

text \<open>
  \<^verbatim>\<open>
  async def call_gemini_with_retry(prompt: str, retries: int = 2, require_content: bool = True)
  \<close>
\<close>

definition call_gemini_with_retry ::
  "env \<Rightarrow> pystr \<Rightarrow> int \<Rightarrow> bool \<Rightarrow> state \<Rightarrow> (http_error + ReviewResponse option) \<times> state" where
  "call_gemini_with_retry E prompt retries require_content s =
     attempts_loop E require_content retries [0..retries] prompt None s"

section \<open>The handlers\<close>

text \<open>\<^verbatim>\<open>{x or "Not provided"}\<close> inside the prompts.\<close>

definition or_not_provided :: "pystr \<Rightarrow> pystr" where
  "or_not_provided x = (if x \<noteq> [] then x else u ''Not provided'')"

text \<open>The two f-strings, line by line.\<close>

definition outline_prompt :: "pystr \<Rightarrow> pystr \<Rightarrow> pystr" where
  "outline_prompt role_title job_description =
     u ''\<newline>'' @
     u ''You are an expert Resume Reviewer for software and tech roles.\<newline>'' @
     u ''The user has only provided a role title and no resume.\<newline>'' @
     u ''Provide a concise outline they can fill in and request missing info.\<newline>'' @
     u ''\<newline>'' @
     u ''Role Title: '' @ role_title @ u ''\<newline>'' @
     u ''Job Description: '' @ or_not_provided job_description @ u ''\<newline>'' @
     u ''\<newline>'' @
     u ''Return JSON ONLY with keys:\<newline>'' @
     u ''overview: 1-2 sentences explaining you need a resume to review.\<newline>'' @
     u ''match_level: Low\<newline>'' @
     u ''sections: include keys profile_summary, experience, projects, skills, education. Each section should have arrays for strengths, weaknesses, rewrites, keywords (empty arrays are OK).\<newline>'' @
     u ''top_fixes: 3-5 bullets on what to gather next.\<newline>'' @
     u ''jd_keywords: 5-10 important keywords if JD provided, else empty array.\<newline>'' @
     u ''insertion_guidance: where to place those keywords if a resume were provided.\<newline>'' @
     u ''missing_info: list of details you need from the user.\<newline>'' @
     u ''resume_outline: bullet outline for a tech resume they can fill in.\<newline>''"

definition review_prompt :: "pystr \<Rightarrow> pystr \<Rightarrow> pystr \<Rightarrow> pystr" where
  "review_prompt role_title job_description resume_text =
     u ''\<newline>'' @
     u ''You are an expert Resume Reviewer for software and tech roles.\<newline>'' @
     u ''Analyze the resume (and job description if provided) and give clear, practical, prioritized feedback.\<newline>'' @
     u ''\<newline>'' @
     u ''Goals:\<newline>'' @
     u ''- Evaluate match to target role.\<newline>'' @
     u ''- Improve clarity, impact, and brevity.\<newline>'' @
     u ''- Optimize for ATS.\<newline>'' @
     u ''- Suggest concrete rewrites (do not invent experience).\<newline>'' @
     u ''\<newline>'' @
     u ''Instructions:\<newline>'' @
     u ''- Start with a short overview (1-2 sentences) and match level (Low/Medium/High).\<newline>'' @
     u ''- Then provide section-by-section feedback with headings: Profile / Summary, Experience, Projects, Skills, Education / Certifications.\<newline>'' @
     u ''- For each section: strengths, weaknesses, example rewrites, keywords for ATS.\<newline>'' @
     u ''- If resume is short/junior, suggest projects/coursework to add.\<newline>'' @
     u ''- If JD provided: list top 5-10 skills/keywords and show how to insert them.\<newline>'' @
     u ''\<newline>'' @
     u ''Role Title: '' @ or_not_provided role_title @ u ''\<newline>'' @
     u ''Job Description: '' @ or_not_provided job_description @ u ''\<newline>'' @
     u ''Resume: '' @ resume_text @ u ''\<newline>'' @
     u ''\<newline>'' @
     u ''Return JSON ONLY with keys:\<newline>'' @
     u ''overview: brief overview (2-3 sentences).\<newline>'' @
     u ''match_level: Low/Medium/High.\<newline>'' @
     u ''sections: object with keys profile_summary, experience, projects, skills, education.\<newline>'' @
     u ''Each section has arrays: strengths, weaknesses, rewrites, keywords.\<newline>'' @
     u ''top_fixes: Top 5 changes to make next, ordered by impact.\<newline>'' @
     u ''jd_keywords: list of keywords from the JD (empty if no JD).\<newline>'' @
     u ''insertion_guidance: bullets showing where/how to insert JD keywords.\<newline>'' @
     u ''missing_info: details to request if resume lacks specifics.\<newline>'' @
     u ''resume_outline: empty array unless resume is missing.\<newline>''"

text \<open>The request body after validation: three strings, each \<open>""\<close> by default.\<close>

record ReviewRequest =
  resume :: pystr
  job_description :: pystr
  role_title :: pystr

definition invalid_request :: http_error where
  "invalid_request = HTTPException 400 (u ''Provide a resume or a target role title.'')"

text \<open>
  \<^verbatim>\<open>
  @app.post("/review", response_model=ReviewResponse)
  async def review_resume(data: ReviewRequest, request: Request):
      client_ip = request.client.host if request.client else "unknown"
      enforce_rate_limit(client_ip)
      resume_text = data.resume.strip()
      job_description = data.job_description.strip()
      role_title = data.role_title.strip()
      if not resume_text and not role_title:
          raise HTTPException(status_code=400, detail="Provide a resume or a target role title.")
      if not resume_text:
          prompt = f"""..."""
          return await call_gemini_with_retry(prompt, require_content=False)
      prompt = f"""..."""
      return await call_gemini_with_retry(prompt)
  \<close>
  \<open>client\<close> is \<open>request.client.host\<close>, or \<open>None\<close> when the request has no client.
\<close>

definition client_ip_of :: "pystr option \<Rightarrow> pystr" where
  "client_ip_of client = (case client of Some host \<Rightarrow> host | None \<Rightarrow> u ''unknown'')"

definition review_resume ::
  "env \<Rightarrow> real \<Rightarrow> ReviewRequest \<Rightarrow> pystr option \<Rightarrow> state
     \<Rightarrow> (http_error + ReviewResponse option) \<times> state" where
  "review_resume E now data client s =
     (case enforce_rate_limit now (client_ip_of client) s of
        (Inl err, s') \<Rightarrow> (Inl err, s')
      | (Inr _, s') \<Rightarrow>
          (let resume_text = strip (resume data);
               job_description' = strip (job_description data);
               role_title' = strip (role_title data)
           in if resume_text = [] \<and> role_title' = [] then (Inl invalid_request, s')
              else if resume_text = []
              then call_gemini_with_retry E (outline_prompt role_title' job_description') 2 False s'
              else call_gemini_with_retry E
                     (review_prompt role_title' job_description' resume_text) 2 True s'))"

text \<open>
  \<^verbatim>\<open>
  @app.post("/tailor", response_model=ReviewResponse)
  async def tailor_alias(data: ReviewRequest, request: Request):
      return await review_resume(data, request)
  \<close>
\<close>

definition tailor_alias ::
  "env \<Rightarrow> real \<Rightarrow> ReviewRequest \<Rightarrow> pystr option \<Rightarrow> state
     \<Rightarrow> (http_error + ReviewResponse option) \<times> state" where
  "tailor_alias E now data client s = review_resume E now data client s"

section \<open>Concrete surroundings for the examples\<close>

text \<open>
  \<open>repr\<close> of a string of printable ASCII characters that holds no apostrophe and no
  backslash: the string between apostrophes (code point 39).
\<close>

definition repr_plain :: "pystr \<Rightarrow> pystr" where
  "repr_plain s = [39] @ s @ [39]"

text \<open>
  A reply of the model and the value \<open>json.loads\<close> gives on it.  The text, written as
  code points because it holds double quotes, is
  \<^verbatim>\<open>{"overview": "Good", "match_level": "Low", "top_fixes": ["Add metrics"], "resume_outline": ["Summary"]}\<close>
\<close>

definition sample_reply :: pystr where
  "sample_reply =
     [123, 34, 111, 118, 101, 114, 118, 105, 101, 119, 34, 58, 32, 34, 71, 111, 111, 100,
      34, 44, 32, 34, 109, 97, 116, 99, 104, 95, 108, 101, 118, 101, 108, 34, 58, 32, 34,
      76, 111, 119, 34, 44, 32, 34, 116, 111, 112, 95, 102, 105, 120, 101, 115, 34, 58,
      32, 91, 34, 65, 100, 100, 32, 109, 101, 116, 114, 105, 99, 115, 34, 93, 44, 32, 34,
      114, 101, 115, 117, 109, 101, 95, 111, 117, 116, 108, 105, 110, 101, 34, 58, 32, 91,
      34, 83, 117, 109, 109, 97, 114, 121, 34, 93, 125]"

definition sample_payload :: json where
  "sample_payload = JObj
     [(u ''overview'', JStr (u ''Good'')),
      (u ''match_level'', JStr (u ''Low'')),
      (u ''top_fixes'', JList [JStr (u ''Add metrics'')]),
      (u ''resume_outline'', JList [JStr (u ''Summary'')])]"

text \<open>\<open>json.loads\<close> on the texts of the examples: the empty object, the reply above, and
  texts that are no JSON.\<close>

definition decode_error :: pyexc where
  "decode_error = PyExc (u ''JSONDecodeError'') (u ''Expecting value: line 1 column 1 (char 0)'')"

definition loads_sample :: "pystr \<Rightarrow> pyexc + json" where
  "loads_sample t =
     (if t = u ''{}'' then Inr (JObj [])
      else if t = sample_reply then Inr sample_payload
      else Inl decode_error)"

text \<open>One candidate \<open>m1\<close>, which always answers \<open>{}\<close>.\<close>

definition env_empty_object :: env where
  "env_empty_object =
     \<lparr> repr_str = repr_plain, json_loads = loads_sample,
       generate_content = (\<lambda>n model_name prompt. Inr (Some (u ''{}''))),
       GEMINI_MODEL = Some (u ''m1''), list_models = Inr [] \<rparr>"

text \<open>Two candidates: \<open>m1\<close> answers with a sentence, \<open>m2\<close> with the reply above.\<close>

definition env_second_answers :: env where
  "env_second_answers =
     \<lparr> repr_str = repr_plain, json_loads = loads_sample,
       generate_content = (\<lambda>n model_name prompt.
          if model_name = u ''m1'' then Inr (Some (u ''Sorry, no.'')) else Inr (Some sample_reply)),
       GEMINI_MODEL = Some (u ''m1,m2''), list_models = Inr [] \<rparr>"

text \<open>Two candidates: \<open>m1\<close> answers with a sentence, \<open>m2\<close> does not exist.\<close>

definition not_found :: pyexc where
  "not_found = PyExc (u ''NotFound'') (u ''404 model not found'')"

definition env_second_missing :: env where
  "env_second_missing =
     \<lparr> repr_str = repr_plain, json_loads = loads_sample,
       generate_content = (\<lambda>n model_name prompt.
          if model_name = u ''m1'' then Inr (Some (u ''Sorry, no.'')) else Inl not_found),
       GEMINI_MODEL = Some (u ''m1,m2''), list_models = Inr [] \<rparr>"

text \<open>Two candidates that do not exist.\<close>

definition env_none_found :: env where
  "env_none_found =
     \<lparr> repr_str = repr_plain, json_loads = loads_sample,
       generate_content = (\<lambda>n model_name prompt. Inl not_found),
       GEMINI_MODEL = Some (u ''m1,m2''), list_models = Inr [] \<rparr>"

text \<open>The state of a process that has served no request.\<close>

definition fresh :: state where
  "fresh = \<lparr> ACTIVE_MODEL_NAME = None, request_log = Map.empty, calls = [] \<rparr>"

text \<open>A client with thirty requests on record, the first at time 0 and the others at
  time 5.\<close>

definition busy :: state where
  "busy = \<lparr> ACTIVE_MODEL_NAME = None,
            request_log = [u ''10.0.0.1'' \<mapsto> 0 # replicate 29 5], calls = [] \<rparr>"

text \<open>A request with a role title and no resume, and the response that the reply above
  normalizes to.\<close>

definition outline_request :: ReviewRequest where
  "outline_request =
     \<lparr> resume = u ''  '', job_description = [], role_title = u '' Backend Engineer '' \<rparr>"

definition no_feedback :: SectionFeedback where
  "no_feedback = \<lparr> strengths = [], weaknesses = [], rewrites' = [], keywords' = [] \<rparr>"

definition sample_response :: ReviewResponse where
  "sample_response =
     \<lparr> overview = u ''Good'', match_level = u ''Low'',
       sections = [(u ''profile_summary'', no_feedback), (u ''experience'', no_feedback),
                   (u ''projects'', no_feedback), (u ''skills'', no_feedback),
                   (u ''education'', no_feedback)],
       top_fixes = [u ''Add metrics''], jd_keywords = [], insertion_guidance = [],
       missing_info = [], resume_outline = [u ''Summary''] \<rparr>"

text \<open>The response that the reply \<open>{}\<close> normalizes to.\<close>

definition blank_response :: ReviewResponse where
  "blank_response =
     \<lparr> overview = [], match_level = [],
       sections = [(u ''profile_summary'', no_feedback), (u ''experience'', no_feedback),
                   (u ''projects'', no_feedback), (u ''skills'', no_feedback),
                   (u ''education'', no_feedback)],
       top_fixes = [], jd_keywords = [], insertion_guidance = [],
       missing_info = [], resume_outline = [] \<rparr>"

text \<open>A request with a job description only.\<close>

definition empty_request :: ReviewRequest where
  "empty_request =
     \<lparr> resume = u ''  '', job_description = u ''Python developer'', role_title = [] \<rparr>"

section \<open>Strings: stripping and splitting\<close>

lemma strip_where_ends:
  assumes "strip_where P s \<noteq> []"
  shows "\<not> P (hd (strip_where P s))" and "\<not> P (last (strip_where P s))"
proof -
  let ?t = "dropWhile P s"
  let ?r = "dropWhile P (rev ?t)"
  have r: "?r \<noteq> []" using assms by (simp add: strip_where_def)
  then have "\<not> P (hd ?r)" by (rule hd_dropWhile)
  then show "\<not> P (last (strip_where P s))"
    using r by (simp add: strip_where_def last_rev)
  have t: "?t \<noteq> []" using r by (metis dropWhile.simps(1) rev.simps(1))
  then have nt: "\<not> P (hd ?t)" by (rule hd_dropWhile)
  obtain ys where ys: "rev ?t = ys @ ?r"
    by (metis takeWhile_dropWhile_id)
  then have "?t = rev ?r @ rev ys" by (metis rev_append rev_rev_ident)
  then have "hd ?t = hd (rev ?r)" using r by (metis hd_append2 rev_is_Nil_conv)
  then show "\<not> P (hd (strip_where P s))" using nt by (simp add: strip_where_def)
qed

lemma strip_where_id:
  assumes "s = [] \<or> (\<not> P (hd s) \<and> \<not> P (last s))"
  shows "strip_where P s = s"
proof (cases "s = []")
  case True then show ?thesis by (simp add: strip_where_def)
next
  case False
  with assms have h: "\<not> P (hd s)" and l: "\<not> P (last s)" by auto
  from False h have "dropWhile P s = s" by (cases s) auto
  moreover have "dropWhile P (rev s) = rev s"
    using False l by (cases "rev s") (auto simp: last_rev[symmetric] hd_rev)
  ultimately show ?thesis by (simp add: strip_where_def)
qed

lemma strip_where_idem: "strip_where P (strip_where P s) = strip_where P s"
  using strip_where_ends[of P s] by (intro strip_where_id) blast

lemma strip_idem: "strip (strip s) = strip s"
  by (simp add: strip_def strip_where_idem)

lemma is_linebreak_13: "is_linebreak 13"
  by (simp add: is_linebreak_def)

lemma splitlines_from_single:
  "\<forall>c\<in>set s. \<not> is_linebreak c \<Longrightarrow> s \<noteq> [] \<Longrightarrow> splitlines_from cur s = [cur @ s]"
proof (induction cur s rule: splitlines_from.induct)
  case (1 cur) then show ?case by simp
next
  case (2 cur c) then show ?case by simp
next
  case (3 cur c d cs)
  have nc: "\<not> is_linebreak c" using "3.prems"(1) by simp
  then have c13: "c \<noteq> 13" using is_linebreak_13 by auto
  have "splitlines_from (cur @ [c]) (d # cs) = [(cur @ [c]) @ d # cs]"
    using "3.IH"(3) nc c13 "3.prems"(1) by simp
  then show ?case using nc c13 by simp
qed


lemma strip_where_Nil_iff: "strip_where P s = [] \<longleftrightarrow> (\<forall>c\<in>set s. P c)"
proof
  assume "strip_where P s = []"
  then have a: "\<forall>c\<in>set (dropWhile P s). P c" by (simp add: strip_where_def)
  have "dropWhile P s = []"
  proof (rule ccontr)
    assume n: "dropWhile P s \<noteq> []"
    then have "\<not> P (hd (dropWhile P s))" by (rule hd_dropWhile)
    moreover have "hd (dropWhile P s) \<in> set (dropWhile P s)" using n by (rule hd_in_set)
    ultimately show False using a by blast
  qed
  then show "\<forall>c\<in>set s. P c" by simp
next
  assume "\<forall>c\<in>set s. P c"
  then have d: "dropWhile P s = []" by simp
  show "strip_where P s = []" unfolding strip_where_def d by simp
qed

lemma is_space_32: "is_space 32"
  by (simp add: is_space_def)

lemma not_linebreak_dash_space: "\<not> is_linebreak 45" "\<not> is_linebreak 32"
  by (simp_all add: is_linebreak_def)

lemma not_space_dash: "\<not> is_space 45"
  by (simp add: is_space_def)

lemma u_dash_space: "u ''- '' = [45, 32]"
  by (simp add: u_def)

lemma coerce_list_bullet:
  assumes "x \<noteq> []" and "\<forall>c\<in>set x. \<not> is_linebreak c"
    and "\<not> is_space (hd x)" and "\<not> is_space (last x)" and "hd x \<noteq> 45" and "last x \<noteq> 45"
  shows "coerce_list R (JStr (u ''- '' @ x)) = [x]"
proof -
  let ?l = "u ''- '' @ x"
  have "\<forall>c\<in>set ?l. \<not> is_linebreak c"
    using assms(2) not_linebreak_dash_space by (simp add: u_dash_space)
  then have sl: "splitlines ?l = [?l]"
    using splitlines_from_single[of ?l "[]"] by (simp add: splitlines_def u_dash_space)
  have "\<not> (\<forall>c\<in>set ?l. is_space c)" using not_space_dash by (simp add: u_dash_space)
  then have ne: "strip ?l \<noteq> []" by (simp add: strip_def strip_where_Nil_iff)
  have h32: "hd x \<noteq> 32" and l32: "last x \<noteq> 32" using assms(3,4) is_space_32 by auto
  have "strip_dash_space x = x"
    unfolding strip_dash_space_def using assms(5,6) h32 l32 by (intro strip_where_id) simp
  moreover have "strip_dash_space ?l = strip_dash_space x"
    by (simp add: strip_dash_space_def strip_where_def u_dash_space)
  ultimately have sd: "strip_dash_space ?l = x" by simp
  have "strip x = x" unfolding strip_def using assms(3,4) by (intro strip_where_id) simp
  with sl ne sd show ?thesis by (simp add: coerce_list_def)
qed

lemma coerce_list_JList:
  "coerce_list R (JList items) = filter (\<lambda>s. s \<noteq> []) (map (\<lambda>item. strip (py_str R item)) items)"
  by (simp add: coerce_list_def filter_map comp_def)

lemma coerce_list_JList_elems:
  "x \<in> set (coerce_list R (JList items)) \<Longrightarrow> x \<noteq> [] \<and> strip x = x"
  by (auto simp: coerce_list_def strip_idem)

lemma coerce_list_JStr_elems:
  "x \<in> set (coerce_list R (JStr s)) \<Longrightarrow> strip x = x"
  by (auto simp: coerce_list_def strip_idem)

lemma coerce_list_other:
  "(\<forall>items. v \<noteq> JList items) \<Longrightarrow> (\<forall>s. v \<noteq> JStr s) \<Longrightarrow> coerce_list R v = []"
  by (cases v) (simp_all add: coerce_list_def)

lemma coerce_list_str_list:
  "\<forall>s\<in>set ss. s \<noteq> [] \<and> strip s = s \<Longrightarrow> coerce_list R (str_list ss) = ss"
proof (induction ss)
  case Nil then show ?case by (simp add: coerce_list_def str_list_def)
next
  case (Cons a ss)
  then have "coerce_list R (str_list ss) = ss" by simp
  moreover have "a \<noteq> []" "strip a = a" using Cons.prems by simp_all
  ultimately show ?case by (simp add: coerce_list_def str_list_def py_str_def)
qed



text \<open>
  Claim C5 says that on a string \<open>coerce_list\<close> drops the empty lines, so that the output
  contains no empty string.  On the one-line string \<open>"-"\<close> the filter \<open>if line.strip()\<close>
  keeps the line, which is not blank, and the element built from it,
  \<open>line.strip("- ").strip()\<close>, is the empty string: the result is \<open>[""]\<close>.  The list
  branch filters on the value it returns and gives \<open>["-"]\<close> on \<open>["-"]\<close>.
\<close>

theorem coerce_list_dash_line:
  "coerce_list repr_plain (JStr (u ''-'')) = [[]]
   \<and> [] \<in> set (coerce_list repr_plain (JStr (u ''-'')))
   \<and> coerce_list repr_plain (JList [JStr (u ''-'')]) = [u ''-'']"
  by (simp add: coerce_list_def u_def splitlines_def strip_def strip_where_def
      strip_dash_space_def is_space_def is_linebreak_def py_str_def)

text \<open>
  Claim C7: \<open>coerce_list\<close> is idempotent on its list output.  A list of non-empty trimmed
  strings is returned unchanged, and so \<open>coerce_list (coerce_list v) = coerce_list v\<close> for
  every list \<open>v\<close>.
\<close>

theorem coerce_list_idempotent:
  "((\<forall>s\<in>set ss. s \<noteq> [] \<and> strip s = s) \<longrightarrow> coerce_list R (str_list ss) = ss)
   \<and> coerce_list R (str_list (coerce_list R (JList items))) = coerce_list R (JList items)"
proof (intro conjI impI)
  assume "\<forall>s\<in>set ss. s \<noteq> [] \<and> strip s = s"
  then show "coerce_list R (str_list ss) = ss" by (rule coerce_list_str_list)
next
  have "\<forall>s\<in>set (coerce_list R (JList items)). s \<noteq> [] \<and> strip s = s"
    using coerce_list_JList_elems by blast
  then show "coerce_list R (str_list (coerce_list R (JList items))) = coerce_list R (JList items)"
    by (rule coerce_list_str_list)
qed


text \<open>The theorem for C7 at the list \<open>["a", "b c"]\<close>.\<close>

theorem coerce_list_idempotent_witness:
  "list_all (\<lambda>s. s \<noteq> [] \<and> strip s = s) [u ''a'', u ''b c'']
   \<and> coerce_list repr_plain (str_list [u ''a'', u ''b c'']) = [u ''a'', u ''b c'']"
proof -
  have hyp: "\<forall>s\<in>set [u ''a'', u ''b c'']. s \<noteq> [] \<and> strip s = s"
    by (simp add: u_def strip_def strip_where_def is_space_def)
  show ?thesis
    unfolding list_all_iff
    using hyp coerce_list_idempotent [of "[u ''a'', u ''b c'']" repr_plain "[]"] by blast
qed

section \<open>The normalizer\<close>

lemma normalize_response_JObj:
  "normalize_response R (JObj d) rc = normalize_dict R d rc"
  by (simp add: normalize_response_def)

text \<open>
  Claim C4: on a parsed mapping, \<open>normalize_response\<close> raises the validation error
  exactly when \<open>require_content\<close> is true and \<open>overview\<close>, \<open>match_level\<close> or \<open>top_fixes\<close>
  is empty after coercion, and it raises nothing else; with \<open>require_content\<close> false it
  returns the normalized response, whose fields are the coerced values.
\<close>

theorem normalize_response_validation:
  "(normalize_response R (JObj d) require_content = Inl missing_fields)
     = (require_content \<and>
        (strip (py_str R (dict_get d (u ''overview'') (JStr []))) = []
         \<or> strip (py_str R (dict_get d (u ''match_level'') (JStr []))) = []
         \<or> coerce_list R (dict_get d (u ''top_fixes'') (JList [])) = []))
   \<and> isl (normalize_response R (JObj d) require_content)
       = (normalize_response R (JObj d) require_content = Inl missing_fields)
   \<and> \<not> isl (normalize_response R (JObj d) False)
   \<and> overview (projr (normalize_response R (JObj d) False))
       = strip (py_str R (dict_get d (u ''overview'') (JStr [])))
   \<and> match_level (projr (normalize_response R (JObj d) False))
       = strip (py_str R (dict_get d (u ''match_level'') (JStr [])))
   \<and> top_fixes (projr (normalize_response R (JObj d) False))
       = take 5 (coerce_list R (dict_get d (u ''top_fixes'') (JList [])))"
  unfolding normalize_response_JObj normalize_dict_def Let_def
  by simp

section \<open>The extractor\<close>

lemma startswith_append: "startswith (p @ s) p"
  by (induction p) simp_all

lemma startswith_hd: "startswith s p \<Longrightarrow> p \<noteq> [] \<Longrightarrow> s \<noteq> [] \<and> hd s = hd p"
  by (cases s; cases p) simp_all

lemma dropWhile_all: "\<forall>c\<in>set xs. P c \<Longrightarrow> dropWhile P (xs @ ys) = dropWhile P ys"
  by (induction xs) auto

lemma dropWhile_id: "xs \<noteq> [] \<Longrightarrow> \<not> P (hd xs) \<Longrightarrow> dropWhile P xs = xs"
  by (cases xs) auto

lemma strip_where_sandwich:
  assumes "\<forall>c\<in>set pre. P c" and "\<forall>c\<in>set post. P c"
    and "m \<noteq> []" and "\<not> P (hd m)" and "\<not> P (last m)"
  shows "strip_where P (pre @ m @ post) = m"
proof -
  have "dropWhile P (pre @ m @ post) = dropWhile P (m @ post)"
    using assms(1) by (rule dropWhile_all)
  also have "\<dots> = m @ post" using assms(3,4) by (intro dropWhile_id) simp_all
  finally have d: "dropWhile P (pre @ m @ post) = m @ post" .
  have rm: "rev m \<noteq> []" using assms(3) by simp
  have hl: "hd (rev m) = last m" using assms(3) by (simp add: hd_rev)
  have "dropWhile P (rev (m @ post)) = dropWhile P (rev post @ rev m)" by simp
  also have "\<dots> = dropWhile P (rev m)" using assms(2) by (intro dropWhile_all) simp
  also have "\<dots> = rev m" using rm hl assms(5) by (intro dropWhile_id) simp_all
  finally show ?thesis by (simp add: strip_where_def d)
qed

lemma search_braces_Some:
  assumes "search_braces c = Some m"
  shows "\<exists>p b s. c = p @ m @ s \<and> m = 123 # b @ [125] \<and> 123 \<notin> set p \<and> 125 \<notin> set s"
proof -
  let ?t = "dropWhile (\<lambda>c. c \<noteq> 123) c"
  let ?p = "takeWhile (\<lambda>c. c \<noteq> 123) c"
  let ?r = "rev (tl ?t)"
  let ?body = "rev (dropWhile (\<lambda>c. c \<noteq> 125) ?r)"
  let ?s = "rev (takeWhile (\<lambda>c. c \<noteq> 125) ?r)"
  from assms have t: "?t \<noteq> []" and body: "?body \<noteq> []" and m: "m = 123 # ?body"
    by (auto simp: search_braces_def Let_def split: if_splits)
  have "\<not> (hd ?t \<noteq> 123)" using t by (rule hd_dropWhile)
  then have ht: "hd ?t = 123" by simp
  have c: "c = ?p @ ?t" by simp
  have tt: "?t = 123 # tl ?t" using t ht by (cases ?t) auto
  have "?r = takeWhile (\<lambda>c. c \<noteq> 125) ?r @ dropWhile (\<lambda>c. c \<noteq> 125) ?r" by simp
  then have "rev ?r = ?body @ ?s" by (metis rev_append)
  then have tl: "tl ?t = ?body @ ?s" by simp
  have p: "123 \<notin> set ?p" using set_takeWhileD by fastforce
  have s: "125 \<notin> set ?s" using set_takeWhileD by fastforce
  have d: "dropWhile (\<lambda>c. c \<noteq> 125) ?r \<noteq> []" using body by simp
  then have "\<not> (hd (dropWhile (\<lambda>c. c \<noteq> 125) ?r) \<noteq> 125)" by (rule hd_dropWhile)
  then have lb: "last ?body = 125" using d by (simp add: last_rev)
  have "?body = butlast ?body @ [last ?body]" using body by (rule append_butlast_last_id [symmetric])
  then have bb: "?body = butlast ?body @ [125]" using lb by simp
  have "?t = m @ ?s" using tt tl m by simp
  then have "c = ?p @ m @ ?s" using c by simp
  moreover have "m = 123 # butlast ?body @ [125]" using m bb by simp
  ultimately show ?thesis using p s by blast
qed

lemma search_braces_span:
  assumes "c = p @ 123 # m @ 125 # s"
  shows "search_braces c \<noteq> None"
proof -
  let ?t = "dropWhile (\<lambda>c. c \<noteq> 123) c"
  have mem: "125 \<in> set (tl ?t) \<and> ?t \<noteq> []"
  proof (cases "123 \<in> set p")
    case False
    then have "\<forall>x\<in>set p. x \<noteq> 123" by auto
    then have "dropWhile (\<lambda>c. c \<noteq> 123) (p @ 123 # m @ 125 # s)
        = dropWhile (\<lambda>c. c \<noteq> 123) (123 # m @ 125 # s)"
      by (rule dropWhile_all)
    then have "?t = 123 # m @ 125 # s"
      using assms by simp
    then show ?thesis by simp
  next
    case True
    then have "?t = dropWhile (\<lambda>c. c \<noteq> 123) p @ 123 # m @ 125 # s"
      using assms by (simp add: dropWhile_append1)
    moreover have "dropWhile (\<lambda>c. c \<noteq> 123) p \<noteq> []" using True by simp
    ultimately show ?thesis by (cases "dropWhile (\<lambda>c. c \<noteq> 123) p") auto
  qed
  then have "125 \<in> set (rev (tl ?t))" by simp
  then have "dropWhile (\<lambda>c. c \<noteq> 125) (rev (tl ?t)) \<noteq> []" by simp
  then show ?thesis using mem by (simp add: search_braces_def Let_def)
qed


lemma u_fence: "u ''```'' = [96, 96, 96]"
  by (simp add: u_def)

lemma u_json: "u ''json'' = [106, 115, 111, 110]"
  by (simp add: u_def)

lemma not_space_marks:
  "\<not> is_space 96" "\<not> is_space 106" "\<not> is_space 123" "\<not> is_space 125"
  by (simp_all add: is_space_def)

lemma search_braces_object: "search_braces (123 # body @ [125]) = Some (123 # body @ [125])"
  by (simp add: search_braces_def)

lemma strip_open_fence_body:
  assumes w1: "\<forall>c\<in>set w1. is_space c"
    and tag: "tag = u ''json'' \<or> tag = [] \<and> (w1 \<noteq> [] \<or> hd rest \<noteq> 106)"
    and r: "rest \<noteq> []" "\<not> is_space (hd rest)"
  shows "strip_open_fence (u ''```'' @ tag @ w1 @ rest) = rest"
proof -
  have sw: "startswith (u ''```'' @ tag @ w1 @ rest) (u ''```'')" by (rule startswith_append)
  have d3: "drop 3 (u ''```'' @ tag @ w1 @ rest) = tag @ w1 @ rest" by (simp add: u_fence)
  have dw: "dropWhile is_space (w1 @ rest) = rest"
  proof -
    have "dropWhile is_space (w1 @ rest) = dropWhile is_space rest" using w1 by (rule dropWhile_all)
    also have "\<dots> = rest" using r by (intro dropWhile_id) simp_all
    finally show ?thesis .
  qed
  show ?thesis
  proof (cases "tag = []")
    case True
    have "\<not> startswith (w1 @ rest) (u ''json'')"
    proof
      assume "startswith (w1 @ rest) (u ''json'')"
      then have h: "hd (w1 @ rest) = 106" using startswith_hd[of "w1 @ rest" "u ''json''"]
        by (simp add: u_json)
      show False
      proof (cases w1)
        case Nil
        then show False using h tag True by (simp add: u_json)
      next
        case (Cons a as)
        then have "is_space 106" using h w1 by simp
        then show False using not_space_marks(2) by simp
      qed
    qed
    then show ?thesis using sw d3 dw True by (simp add: strip_open_fence_def)
  next
    case False
    then have t: "tag = u ''json''" using tag by simp
    have "startswith (u ''json'' @ w1 @ rest) (u ''json'')" by (rule startswith_append)
    moreover have "drop 4 (u ''json'' @ w1 @ rest) = w1 @ rest" by (simp add: u_json)
    ultimately show ?thesis using sw d3 dw t by (simp add: strip_open_fence_def)
  qed
qed

lemma strip_close_fence_body:
  assumes w2: "\<forall>c\<in>set w2. is_space c" and J: "J \<noteq> []" "\<not> is_space (last J)"
  shows "strip_close_fence (J @ w2 @ u ''```'') = J"
proof -
  have rv: "rev (J @ w2 @ u ''```'') = u ''```'' @ rev w2 @ rev J" by (simp add: u_fence)
  have sw: "startswith (u ''```'' @ rev w2 @ rev J) (u ''```'')" by (rule startswith_append)
  have d3: "drop 3 (u ''```'' @ rev w2 @ rev J) = rev w2 @ rev J" by (simp add: u_fence)
  have "dropWhile is_space (rev w2 @ rev J) = dropWhile is_space (rev J)"
    using w2 by (intro dropWhile_all) simp
  also have "\<dots> = rev J" using J by (intro dropWhile_id) (simp_all add: hd_rev)
  finally have dw: "dropWhile is_space (rev w2 @ rev J) = rev J" .
  show ?thesis unfolding strip_close_fence_def Let_def rv using sw d3 dw by simp
qed

lemma strip_fences_body:
  assumes "\<forall>c\<in>set pre. is_space c" "\<forall>c\<in>set post. is_space c"
    "\<forall>c\<in>set w1. is_space c" "\<forall>c\<in>set w2. is_space c"
    "tag = u ''json'' \<or> tag = [] \<and> (w1 \<noteq> [] \<or> hd body \<noteq> 106)"
    "body \<noteq> []" "\<not> is_space (hd body)" "\<not> is_space (last body)"
  shows "strip_fences (pre @ u ''```'' @ tag @ w1 @ body @ w2 @ u ''```'' @ post) = body"
proof -
  let ?m = "u ''```'' @ tag @ w1 @ body @ w2 @ u ''```''"
  have "strip_where is_space (pre @ ?m @ post) = ?m"
    using assms(1,2) not_space_marks(1) by (intro strip_where_sandwich) (simp_all add: u_fence)
  then have st: "strip (pre @ u ''```'' @ tag @ w1 @ body @ w2 @ u ''```'' @ post) = ?m"
    by (simp add: strip_def)
  have sw: "startswith ?m (u ''```'')" by (rule startswith_append)
  have hd': "hd (body @ w2 @ u ''```'') = hd body" using assms(6) by simp
  have "strip_open_fence (u ''```'' @ tag @ w1 @ (body @ w2 @ u ''```'')) = body @ w2 @ u ''```''"
    using assms(3,5,6,7) unfolding hd' [symmetric] by (intro strip_open_fence_body) simp_all
  then have op: "strip_open_fence ?m = body @ w2 @ u ''```''" by simp
  have cl: "strip_close_fence (body @ w2 @ u ''```'') = body"
    using assms(4,6,8) by (intro strip_close_fence_body) simp_all
  show ?thesis unfolding strip_fences_def Let_def st using sw op cl by simp
qed

lemma strip_fences_bare:
  assumes "\<forall>c\<in>set pre. is_space c" "\<forall>c\<in>set post. is_space c" "J = 123 # body @ [125]"
  shows "strip_fences (pre @ J @ post) = J"
proof -
  have "strip_where is_space (pre @ J @ post) = J"
    using assms not_space_marks(3,4) by (intro strip_where_sandwich) simp_all
  then have st: "strip (pre @ J @ post) = J" by (simp add: strip_def)
  have "\<not> startswith J (u ''```'')" using assms(3) by (simp add: u_fence)
  then show ?thesis unfolding strip_fences_def Let_def st by simp
qed

lemma search_braces_None:
  "\<not> (\<exists>p m s. c = p @ 123 # m @ 125 # s) \<Longrightarrow> search_braces c = None"
proof (cases "search_braces c")
  case None
  then show ?thesis .
next
  case (Some m)
  assume no: "\<not> (\<exists>p m s. c = p @ 123 # m @ 125 # s)"
  from Some obtain p b s where "c = p @ m @ s" and "m = 123 # b @ [125]"
    using search_braces_Some by blast
  then have "c = p @ 123 # b @ 125 # s" by simp
  then show ?thesis using no by blast
qed

text \<open>
  Claim C6.  For a text that is a JSON object \<open>J = {...}\<close>, bare or wrapped in a fence
  (three backticks, an optional \<open>json\<close> tag, whitespace, \<open>J\<close>, whitespace, three
  backticks), with whitespace around, \<open>extract_json\<close> returns exactly \<open>J\<close>.  Fence
  stripping returns the inside of such a fence whatever it holds, as long as it is not
  empty and neither starts nor ends with whitespace (nor starts with \<open>j\<close> right after
  three backticks with no tag), and it returns the trimmed text when that does not start
  with three backticks.  For every text whose fence-stripped form holds no \<open>{\<close> with a
  \<open>}\<close> after it, \<open>extract_json\<close> returns the fence-stripped text unchanged, so the inside
  of the fence for a fenced text; and when there is such a span, the result is the one
  from the first \<open>{\<close> to the last \<open>}\<close>.
\<close>

theorem extract_json_round_trip:
  "((\<forall>c\<in>set pre. is_space c) \<and> (\<forall>c\<in>set post. is_space c) \<and> (\<forall>c\<in>set w1. is_space c)
      \<and> (\<forall>c\<in>set w2. is_space c) \<and> (tag = [] \<or> tag = u ''json'') \<and> J = 123 # body @ [125]
     \<longrightarrow> extract_json (pre @ u ''```'' @ tag @ w1 @ J @ w2 @ u ''```'' @ post) = J
         \<and> extract_json (pre @ J @ post) = J)
   \<and> ((\<forall>c\<in>set pre. is_space c) \<and> (\<forall>c\<in>set post. is_space c) \<and> (\<forall>c\<in>set w1. is_space c)
      \<and> (\<forall>c\<in>set w2. is_space c)
      \<and> (tag = u ''json'' \<or> tag = [] \<and> (w1 \<noteq> [] \<or> hd inner \<noteq> 106))
      \<and> inner \<noteq> [] \<and> \<not> is_space (hd inner) \<and> \<not> is_space (last inner)
     \<longrightarrow> strip_fences (pre @ u ''```'' @ tag @ w1 @ inner @ w2 @ u ''```'' @ post) = inner
         \<and> (\<not> (\<exists>p m s. inner = p @ 123 # m @ 125 # s)
            \<longrightarrow> extract_json (pre @ u ''```'' @ tag @ w1 @ inner @ w2 @ u ''```'' @ post) = inner))
   \<and> (\<not> startswith (strip text) (u ''```'') \<longrightarrow> strip_fences text = strip text)
   \<and> (\<not> (\<exists>p m s. strip_fences text = p @ 123 # m @ 125 # s)
       \<longrightarrow> extract_json text = strip_fences text)
   \<and> ((\<exists>p m s. strip_fences text = p @ 123 # m @ 125 # s)
       \<longrightarrow> (\<exists>p s. strip_fences text = p @ extract_json text @ s \<and> 123 \<notin> set p \<and> 125 \<notin> set s
              \<and> hd (extract_json text) = 123 \<and> last (extract_json text) = 125))"
proof (intro conjI impI)
  assume a: "(\<forall>c\<in>set pre. is_space c) \<and> (\<forall>c\<in>set post. is_space c) \<and> (\<forall>c\<in>set w1. is_space c)
      \<and> (\<forall>c\<in>set w2. is_space c) \<and> (tag = [] \<or> tag = u ''json'') \<and> J = 123 # body @ [125]"
  then have "strip_fences (pre @ u ''```'' @ tag @ w1 @ J @ w2 @ u ''```'' @ post) = J"
    using not_space_marks(3,4) by (intro strip_fences_body) auto
  then show "extract_json (pre @ u ''```'' @ tag @ w1 @ J @ w2 @ u ''```'' @ post) = J"
    using a search_braces_object[of body] by (simp add: extract_json_def)
  from a have "strip_fences (pre @ J @ post) = J"
    by (intro strip_fences_bare) simp_all
  then show "extract_json (pre @ J @ post) = J"
    using a search_braces_object[of body] by (simp add: extract_json_def)
next
  assume a: "(\<forall>c\<in>set pre. is_space c) \<and> (\<forall>c\<in>set post. is_space c) \<and> (\<forall>c\<in>set w1. is_space c)
      \<and> (\<forall>c\<in>set w2. is_space c)
      \<and> (tag = u ''json'' \<or> tag = [] \<and> (w1 \<noteq> [] \<or> hd inner \<noteq> 106))
      \<and> inner \<noteq> [] \<and> \<not> is_space (hd inner) \<and> \<not> is_space (last inner)"
  then show "strip_fences (pre @ u ''```'' @ tag @ w1 @ inner @ w2 @ u ''```'' @ post) = inner"
    by (intro strip_fences_body) simp_all
next
  assume a: "(\<forall>c\<in>set pre. is_space c) \<and> (\<forall>c\<in>set post. is_space c) \<and> (\<forall>c\<in>set w1. is_space c)
      \<and> (\<forall>c\<in>set w2. is_space c)
      \<and> (tag = u ''json'' \<or> tag = [] \<and> (w1 \<noteq> [] \<or> hd inner \<noteq> 106))
      \<and> inner \<noteq> [] \<and> \<not> is_space (hd inner) \<and> \<not> is_space (last inner)"
  assume no: "\<not> (\<exists>p m s. inner = p @ 123 # m @ 125 # s)"
  from a have sf: "strip_fences (pre @ u ''```'' @ tag @ w1 @ inner @ w2 @ u ''```'' @ post) = inner"
    by (intro strip_fences_body) simp_all
  have "search_braces inner = None" using no by (rule search_braces_None)
  then show "extract_json (pre @ u ''```'' @ tag @ w1 @ inner @ w2 @ u ''```'' @ post) = inner"
    unfolding extract_json_def Let_def sf by simp
next
  assume "\<not> startswith (strip text) (u ''```'')"
  then show "strip_fences text = strip text" by (simp add: strip_fences_def)
next
  assume no: "\<not> (\<exists>p m s. strip_fences text = p @ 123 # m @ 125 # s)"
  then have "search_braces (strip_fences text) = None" by (rule search_braces_None)
  then show "extract_json text = strip_fences text" by (simp add: extract_json_def)
next
  assume "\<exists>p m s. strip_fences text = p @ 123 # m @ 125 # s"
  then obtain p0 m0 s0 where "strip_fences text = p0 @ 123 # m0 @ 125 # s0" by blast
  then have "search_braces (strip_fences text) \<noteq> None" by (rule search_braces_span)
  then obtain m where m: "search_braces (strip_fences text) = Some m" by blast
  then have e: "extract_json text = m" by (simp add: extract_json_def)
  obtain p b s where "strip_fences text = p @ m @ s" and "m = 123 # b @ [125]"
      and "123 \<notin> set p" and "125 \<notin> set s"
    using search_braces_Some[OF m] by blast
  then have "strip_fences text = p @ extract_json text @ s \<and> 123 \<notin> set p \<and> 125 \<notin> set s
              \<and> hd (extract_json text) = 123 \<and> last (extract_json text) = 125"
    using e by simp
  then show "\<exists>p s. strip_fences text = p @ extract_json text @ s \<and> 123 \<notin> set p \<and> 125 \<notin> set s
              \<and> hd (extract_json text) = 123 \<and> last (extract_json text) = 125"
    by blast
qed


text \<open>
  The theorem for C6 at a fenced and a bare \<open>{"a":1}\<close>, at a fenced \<open>[1, 2]\<close>, at the
  text \<open>null\<close> and at the text \<open>a{b}c{d}e\<close>.
\<close>

theorem extract_json_round_trip_witness:
  "list_all is_space (u ''  '') \<and> list_all is_space (u ''\<newline>'')
   \<and> extract_json (u ''  '' @ u ''```'' @ u ''json'' @ u ''\<newline>''
        @ (123 # [34, 97, 34, 58, 49] @ [125]) @ u ''\<newline>'' @ u ''```'' @ u ''\<newline>'')
       = 123 # [34, 97, 34, 58, 49] @ [125]
   \<and> extract_json (u ''  '' @ (123 # [34, 97, 34, 58, 49] @ [125]) @ u ''\<newline>'')
       = 123 # [34, 97, 34, 58, 49] @ [125]
   \<and> u ''[1, 2]'' \<noteq> [] \<and> \<not> is_space (hd (u ''[1, 2]'')) \<and> \<not> is_space (last (u ''[1, 2]''))
   \<and> \<not> (\<exists>p m s. u ''[1, 2]'' = p @ 123 # m @ 125 # s)
   \<and> strip_fences (u ''  '' @ u ''```'' @ u ''json'' @ u ''\<newline>'' @ u ''[1, 2]''
        @ u ''\<newline>'' @ u ''```'' @ u ''\<newline>'') = u ''[1, 2]''
   \<and> extract_json (u ''  '' @ u ''```'' @ u ''json'' @ u ''\<newline>'' @ u ''[1, 2]''
        @ u ''\<newline>'' @ u ''```'' @ u ''\<newline>'') = u ''[1, 2]''
   \<and> \<not> startswith (strip (u ''null'')) (u ''```'')
   \<and> strip_fences (u ''null'') = strip (u ''null'')
   \<and> \<not> (\<exists>p m s. strip_fences (u ''null'') = p @ 123 # m @ 125 # s)
   \<and> extract_json (u ''null'') = strip_fences (u ''null'')
   \<and> (\<exists>p m s. strip_fences (u ''a{b}c{d}e'') = p @ 123 # m @ 125 # s)
   \<and> (\<exists>p s. strip_fences (u ''a{b}c{d}e'') = p @ extract_json (u ''a{b}c{d}e'') @ s
          \<and> 123 \<notin> set p \<and> 125 \<notin> set s
          \<and> hd (extract_json (u ''a{b}c{d}e'')) = 123 \<and> last (extract_json (u ''a{b}c{d}e'')) = 125)"
proof -
  have sp: "(\<forall>c\<in>set (u ''  ''). is_space c) \<and> (\<forall>c\<in>set (u ''\<newline>''). is_space c)"
    by (simp add: u_def is_space_def)
  have inner: "u ''[1, 2]'' = [91, 49, 44, 32, 50, 93]" by (simp add: u_def)
  have ends: "u ''[1, 2]'' \<noteq> [] \<and> \<not> is_space (hd (u ''[1, 2]''))
      \<and> \<not> is_space (last (u ''[1, 2]''))"
    unfolding inner by (simp add: is_space_def)
  have "123 \<notin> set (u ''[1, 2]'')" unfolding inner by simp
  then have flat: "\<not> (\<exists>p m s. u ''[1, 2]'' = p @ 123 # m @ 125 # s)"
    by (metis in_set_conv_decomp)
  have sn: "strip (u ''null'') = [110, 117, 108, 108]"
    by (simp add: strip_def strip_where_def u_def is_space_def)
  have nf: "\<not> startswith (strip (u ''null'')) (u ''```'')"
    unfolding sn by (simp add: u_fence)
  have "strip_fences (u ''null'') = [110, 117, 108, 108]"
    by (simp add: strip_fences_def strip_def strip_where_def u_def is_space_def)
  then have "123 \<notin> set (strip_fences (u ''null''))" by simp
  then have no: "\<not> (\<exists>p m s. strip_fences (u ''null'') = p @ 123 # m @ 125 # s)"
    by (metis in_set_conv_decomp)
  have "strip_fences (u ''a{b}c{d}e'') = [97] @ 123 # [98, 125, 99, 123, 100] @ 125 # [101]"
    by (simp add: strip_fences_def strip_def strip_where_def u_def is_space_def)
  then have yes: "\<exists>p m s. strip_fences (u ''a{b}c{d}e'') = p @ 123 # m @ 125 # s"
    by blast
  show ?thesis
    unfolding list_all_iff
    using sp ends flat nf no yes
      extract_json_round_trip [of "u ''  ''" "u ''\<newline>''" "u ''\<newline>''" "u ''\<newline>''" "u ''json''"
        "123 # [34, 97, 34, 58, 49] @ [125]" "[34, 97, 34, 58, 49]" "u ''[1, 2]''" "u ''null''"]
      extract_json_round_trip [of "[]" "[]" "[]" "[]" "[]" "[123, 125]" "[]" "[]" "u ''a{b}c{d}e''"]
    by blast
qed

section \<open>The rate limiter\<close>

lemma prune_within: "\<forall>x\<in>set q. now - x \<le> 60 \<Longrightarrow> prune now q = q"
  by (cases q) (auto simp: RATE_WINDOW_SECONDS_def)

lemma prune_sorted: "sorted q \<Longrightarrow> prune now q = filter (\<lambda>t. now - t \<le> 60) q"
proof (induction q)
  case Nil
  show ?case by simp
next
  case (Cons t q)
  show ?case
  proof (cases "now - t > 60")
    case True
    with Cons show ?thesis by (simp add: RATE_WINDOW_SECONDS_def)
  next
    case False
    have "\<forall>x\<in>set (t # q). now - x \<le> 60"
      using False Cons.prems by auto
    hence "filter (\<lambda>t. now - t \<le> 60) (t # q) = t # q"
      by (simp only: filter_True)
    moreover have "prune now (t # q) = t # q"
      using False by (simp add: RATE_WINDOW_SECONDS_def)
    ultimately show ?thesis by simp
  qed
qed

lemma enforce_rate_limit_admit:
  "length (prune now (queue_of s c)) < 30 \<Longrightarrow>
   enforce_rate_limit now c s =
     (Inr (), s\<lparr>request_log := (request_log s)(c \<mapsto> prune now (queue_of s c) @ [now])\<rparr>)"
  by (simp add: enforce_rate_limit_def RATE_LIMIT_def Let_def)

lemma enforce_rate_limit_reject:
  "30 \<le> length (prune now (queue_of s c)) \<Longrightarrow>
   enforce_rate_limit now c s =
     (Inl rate_limited, s\<lparr>request_log := (request_log s)(c \<mapsto> prune now (queue_of s c))\<rparr>)"
  by (simp add: enforce_rate_limit_def RATE_LIMIT_def Let_def)

lemma queue_of_update:
  "queue_of (s\<lparr>request_log := (request_log s)(c \<mapsto> q)\<rparr>) c = q"
  by (simp add: queue_of_def)

lemma set_queue_twice:
  "s\<lparr>request_log := (request_log s)(c \<mapsto> a)\<rparr>
     \<lparr>request_log := (request_log (s\<lparr>request_log := (request_log s)(c \<mapsto> a)\<rparr>))(c \<mapsto> b)\<rparr>
   = s\<lparr>request_log := (request_log s)(c \<mapsto> b)\<rparr>"
  by simp

lemma enforce_all_admits:
  "ts \<noteq> [] \<Longrightarrow> queue_of s c = q \<Longrightarrow> length (q @ ts) \<le> 30 \<Longrightarrow>
   \<forall>x\<in>set (q @ ts). \<forall>y\<in>set ts. y - x \<le> 60 \<Longrightarrow>
   enforce_all ts c s =
     (replicate (length ts) (Inr ()), s\<lparr>request_log := (request_log s)(c \<mapsto> q @ ts)\<rparr>)"
proof (induction ts arbitrary: s q)
  case Nil
  thus ?case by simp
next
  case (Cons t ts)
  have pr: "prune t (queue_of s c) = q"
    using Cons.prems(2,4) by (intro prune_within [THEN trans]) auto
  have len: "length (prune t (queue_of s c)) < 30"
    using Cons.prems(3) pr by simp
  let ?s1 = "s\<lparr>request_log := (request_log s)(c \<mapsto> q @ [t])\<rparr>"
  have step: "enforce_rate_limit t c s = (Inr (), ?s1)"
    using enforce_rate_limit_admit [OF len] unfolding pr .
  have unfold: "enforce_all (t # ts) c s =
      (case enforce_all ts c ?s1 of (rs, s'') \<Rightarrow> (Inr () # rs, s''))"
    by (simp only: enforce_all.simps step prod.case)
  show ?case
  proof (cases "ts = []")
    case True
    show ?thesis unfolding unfold unfolding True
      by (simp only: enforce_all.simps prod.case list.size replicate.simps One_nat_def
          replicate_0 add_0 replicate_Suc)
  next
    case False
    have q1: "queue_of ?s1 c = q @ [t]" by (simp add: queue_of_def)
    have l1: "length ((q @ [t]) @ ts) \<le> 30" using Cons.prems(3) by simp
    have w1: "\<forall>x\<in>set ((q @ [t]) @ ts). \<forall>y\<in>set ts. y - x \<le> 60"
      using Cons.prems(4) by auto
    have rest: "enforce_all ts c ?s1 =
       (replicate (length ts) (Inr ()),
        ?s1\<lparr>request_log := (request_log ?s1)(c \<mapsto> (q @ [t]) @ ts)\<rparr>)"
      by (rule Cons.IH [OF False q1 l1 w1])
    have app: "(q @ [t]) @ ts = q @ t # ts" by simp
    have len': "replicate (length (t # ts)) (Inr () :: http_error + unit) =
        Inr () # replicate (length ts) (Inr ())" by simp
    show ?thesis unfolding unfold rest set_queue_twice app len'
      by (simp only: prod.case)
  qed
qed

text \<open>
  Claim C3.  One call at clock reading \<open>now\<close>, for a client whose recorded timestamps are
  in order: the timestamps kept are those at most 60 seconds old; when fewer than 30 are
  kept the call is admitted and \<open>now\<close> is recorded after them, otherwise the call is
  rejected with the 429 error and \<open>now\<close> is not recorded.  Hence: calls at readings \<open>ts\<close>
  that, with the timestamps on record, are at most 30 and lie within 60 seconds of one
  another are all admitted, each one recorded; with 30 timestamps on record, all within
  the window, the next call is rejected and the record is left as it was; and when the
  window has passed the oldest of 30 timestamps and no other, the call is admitted, the
  oldest timestamp goes, and a further call at the same reading is rejected: one unit
  of capacity was freed.
\<close>

theorem enforce_rate_limit_window:
  "(sorted (queue_of s c) \<longrightarrow>
      enforce_rate_limit now c s =
        (let w = filter (\<lambda>t. now - t \<le> 60) (queue_of s c) in
         if length w < 30
         then (Inr (), s\<lparr>request_log := (request_log s)(c \<mapsto> w @ [now])\<rparr>)
         else (Inl (HTTPException 429 (u ''Rate limit exceeded. Try again soon.'')),
               s\<lparr>request_log := (request_log s)(c \<mapsto> w)\<rparr>)))
   \<and> (ts \<noteq> [] \<and> length (queue_of s c @ ts) \<le> 30
        \<and> (\<forall>x\<in>set (queue_of s c @ ts). \<forall>y\<in>set ts. y - x \<le> 60) \<longrightarrow>
      enforce_all ts c s =
        (replicate (length ts) (Inr ()),
         s\<lparr>request_log := (request_log s)(c \<mapsto> queue_of s c @ ts)\<rparr>))
   \<and> (length (queue_of s c) = 30 \<and> (\<forall>x\<in>set (queue_of s c). now - x \<le> 60) \<longrightarrow>
      enforce_rate_limit now c s =
        (Inl (HTTPException 429 (u ''Rate limit exceeded. Try again soon.'')),
         s\<lparr>request_log := (request_log s)(c \<mapsto> queue_of s c)\<rparr>))
   \<and> (queue_of s c = t1 # rest \<and> length rest = 29 \<and> now - t1 > 60
        \<and> (\<forall>x\<in>set rest. now - x \<le> 60) \<longrightarrow>
      enforce_rate_limit now c s =
        (Inr (), s\<lparr>request_log := (request_log s)(c \<mapsto> rest @ [now])\<rparr>)
      \<and> fst (enforce_rate_limit now c (snd (enforce_rate_limit now c s))) =
          Inl (HTTPException 429 (u ''Rate limit exceeded. Try again soon.'')))"
proof (intro conjI impI)
  assume "sorted (queue_of s c)"
  hence "prune now (queue_of s c) = filter (\<lambda>t. now - t \<le> 60) (queue_of s c)"
    by (rule prune_sorted)
  thus "enforce_rate_limit now c s =
        (let w = filter (\<lambda>t. now - t \<le> 60) (queue_of s c) in
         if length w < 30
         then (Inr (), s\<lparr>request_log := (request_log s)(c \<mapsto> w @ [now])\<rparr>)
         else (Inl (HTTPException 429 (u ''Rate limit exceeded. Try again soon.'')),
               s\<lparr>request_log := (request_log s)(c \<mapsto> w)\<rparr>))"
    by (simp add: enforce_rate_limit_def RATE_LIMIT_def Let_def rate_limited_def not_le)
next
  assume "ts \<noteq> [] \<and> length (queue_of s c @ ts) \<le> 30
        \<and> (\<forall>x\<in>set (queue_of s c @ ts). \<forall>y\<in>set ts. y - x \<le> 60)"
  thus "enforce_all ts c s =
        (replicate (length ts) (Inr ()),
         s\<lparr>request_log := (request_log s)(c \<mapsto> queue_of s c @ ts)\<rparr>)"
    by (intro enforce_all_admits) auto
next
  assume a: "length (queue_of s c) = 30 \<and> (\<forall>x\<in>set (queue_of s c). now - x \<le> 60)"
  hence "prune now (queue_of s c) = queue_of s c" by (intro prune_within) simp
  thus "enforce_rate_limit now c s =
        (Inl (HTTPException 429 (u ''Rate limit exceeded. Try again soon.'')),
         s\<lparr>request_log := (request_log s)(c \<mapsto> queue_of s c)\<rparr>)"
    using a enforce_rate_limit_reject [of now s c] by (simp add: rate_limited_def)
next
  assume a: "queue_of s c = t1 # rest \<and> length rest = 29 \<and> now - t1 > 60
        \<and> (\<forall>x\<in>set rest. now - x \<le> 60)"
  hence "prune now rest = rest" by (intro prune_within) simp
  hence pr: "prune now (queue_of s c) = rest"
    using a by (simp add: RATE_WINDOW_SECONDS_def)
  show "enforce_rate_limit now c s =
        (Inr (), s\<lparr>request_log := (request_log s)(c \<mapsto> rest @ [now])\<rparr>)"
    using a pr enforce_rate_limit_admit [of now s c] by simp
next
  assume a: "queue_of s c = t1 # rest \<and> length rest = 29 \<and> now - t1 > 60
        \<and> (\<forall>x\<in>set rest. now - x \<le> 60)"
  hence "prune now rest = rest" by (intro prune_within) simp
  hence pr: "prune now (queue_of s c) = rest"
    using a by (simp add: RATE_WINDOW_SECONDS_def)
  let ?s1 = "s\<lparr>request_log := (request_log s)(c \<mapsto> rest @ [now])\<rparr>"
  have e1: "enforce_rate_limit now c s = (Inr (), ?s1)"
    using a pr enforce_rate_limit_admit [of now s c] by simp
  have "prune now (rest @ [now]) = rest @ [now]"
    using a by (intro prune_within) simp
  hence "prune now (queue_of ?s1 c) = rest @ [now]" by (simp add: queue_of_def)
  hence "fst (enforce_rate_limit now c ?s1) = Inl rate_limited"
    using a enforce_rate_limit_reject [of now ?s1 c] by simp
  thus "fst (enforce_rate_limit now c (snd (enforce_rate_limit now c s))) =
          Inl (HTTPException 429 (u ''Rate limit exceeded. Try again soon.''))"
    using e1 by (simp add: rate_limited_def)
qed


text \<open>
  The theorem for C3 at a client with thirty timestamps (one at 0, the others at 5) at
  the readings 10 and 61, and at a new client calling fifteen times at 1 and fifteen
  times at 50.
\<close>

theorem enforce_rate_limit_window_witness:
  "sorted (queue_of busy (u ''10.0.0.1''))
   \<and> length (queue_of busy (u ''10.0.0.1'')) = 30
   \<and> list_all (\<lambda>x. 10 - x \<le> 60) (queue_of busy (u ''10.0.0.1''))
   \<and> fst (enforce_rate_limit 10 (u ''10.0.0.1'') busy)
       = Inl (HTTPException 429 (u ''Rate limit exceeded. Try again soon.''))
   \<and> queue_of (snd (enforce_rate_limit 10 (u ''10.0.0.1'') busy)) (u ''10.0.0.1'')
       = 0 # replicate 29 5
   \<and> length (queue_of fresh (u ''10.0.0.1'') @ replicate 15 1 @ replicate 15 50) \<le> 30
   \<and> list_all (\<lambda>x. list_all (\<lambda>y. y - x \<le> 60) (replicate 15 1 @ replicate 15 50))
        (queue_of fresh (u ''10.0.0.1'') @ replicate 15 1 @ replicate 15 50)
   \<and> fst (enforce_all (replicate 15 1 @ replicate 15 50) (u ''10.0.0.1'') fresh)
       = replicate 30 (Inr ())
   \<and> queue_of (snd (enforce_all (replicate 15 1 @ replicate 15 50) (u ''10.0.0.1'') fresh))
        (u ''10.0.0.1'') = replicate 15 1 @ replicate 15 50
   \<and> queue_of busy (u ''10.0.0.1'') = 0 # replicate 29 5
   \<and> (61::real) - 0 > 60
   \<and> list_all (\<lambda>x. 61 - x \<le> 60) (replicate 29 (5::real))
   \<and> fst (enforce_rate_limit 61 (u ''10.0.0.1'') busy) = Inr ()
   \<and> queue_of (snd (enforce_rate_limit 61 (u ''10.0.0.1'') busy)) (u ''10.0.0.1'')
       = replicate 29 5 @ [61]
   \<and> fst (enforce_rate_limit 61 (u ''10.0.0.1'')
            (snd (enforce_rate_limit 61 (u ''10.0.0.1'') busy)))
       = Inl (HTTPException 429 (u ''Rate limit exceeded. Try again soon.''))"
proof -
  let ?c = "u ''10.0.0.1''"
  let ?ts = "replicate 15 (1::real) @ replicate 15 50"
  have qb: "queue_of busy ?c = 0 # replicate 29 5"
    by (simp add: queue_of_def busy_def)
  have qf: "queue_of fresh ?c = []"
    by (simp add: queue_of_def fresh_def)
  have h1: "sorted (queue_of busy ?c)" unfolding qb by simp
  have h3: "length (queue_of busy ?c) = 30 \<and> (\<forall>x\<in>set (queue_of busy ?c). 10 - x \<le> 60)"
    unfolding qb by simp
  have h2: "?ts \<noteq> [] \<and> length (queue_of fresh ?c @ ?ts) \<le> 30
        \<and> (\<forall>x\<in>set (queue_of fresh ?c @ ?ts). \<forall>y\<in>set ?ts. y - x \<le> 60)"
    unfolding qf by auto
  have h4: "queue_of busy ?c = 0 # replicate 29 5 \<and> length (replicate 29 (5::real)) = 29
        \<and> (61::real) - 0 > 60 \<and> (\<forall>x\<in>set (replicate 29 (5::real)). 61 - x \<le> 60)"
    unfolding qb by simp
  note a = enforce_rate_limit_window [where s = busy and c = ?c and now = 10]
  note b = enforce_rate_limit_window [where s = fresh and c = ?c and ts = ?ts]
  note c = enforce_rate_limit_window
    [where s = busy and c = ?c and now = 61 and ?t1.0 = 0 and rest = "replicate 29 5"]
  have r1: "enforce_rate_limit 10 ?c busy =
      (Inl (HTTPException 429 (u ''Rate limit exceeded. Try again soon.'')),
       busy\<lparr>request_log := (request_log busy)(?c \<mapsto> queue_of busy ?c)\<rparr>)"
    using a h3 by blast
  have r2: "enforce_all ?ts ?c fresh =
      (replicate (length ?ts) (Inr ()),
       fresh\<lparr>request_log := (request_log fresh)(?c \<mapsto> queue_of fresh ?c @ ?ts)\<rparr>)"
    using b h2 by blast
  have r4: "enforce_rate_limit 61 ?c busy =
        (Inr (), busy\<lparr>request_log := (request_log busy)(?c \<mapsto> replicate 29 5 @ [61])\<rparr>)
      \<and> fst (enforce_rate_limit 61 ?c (snd (enforce_rate_limit 61 ?c busy))) =
          Inl (HTTPException 429 (u ''Rate limit exceeded. Try again soon.''))"
    using c h4 by blast
  have r4a: "enforce_rate_limit 61 ?c busy =
        (Inr (), busy\<lparr>request_log := (request_log busy)(?c \<mapsto> replicate 29 5 @ [61])\<rparr>)"
    using r4 by (rule conjunct1)
  have r4b: "fst (enforce_rate_limit 61 ?c (snd (enforce_rate_limit 61 ?c busy))) =
          Inl (HTTPException 429 (u ''Rate limit exceeded. Try again soon.''))"
    using r4 by (rule conjunct2)
  show ?thesis
    unfolding list_all_iff
    using h1 h2 h3 h4 r4b
    by (simp add: r1 r2 r4a queue_of_update qb qf)
qed

section \<open>The model invoker: the request log\<close>

lemma try_candidate_cases:
  "try_candidate E rc p m s = (res, s1) \<Longrightarrow>
     res = attempt_result E rc (length (calls s)) m p
     \<and> calls s1 = calls s @ [Call m p (case res of Inl e \<Rightarrow> Some e | Inr r \<Rightarrow> None)]
     \<and> request_log s1 = request_log s
     \<and> ACTIVE_MODEL_NAME s1 =
         (if parsed_payload E (length (calls s)) m p = None then ACTIVE_MODEL_NAME s else Some m)"
  by (auto simp: try_candidate_def attempt_result_def parsed_payload_def record_call_def Let_def
      split: sum.splits)

lemma candidates_loop_log:
  "request_log (snd (candidates_loop E rc p ms le s)) = request_log s"
proof (induction ms arbitrary: le s)
  case Nil
  show ?case by simp
next
  case (Cons m ms)
  obtain res s1 where t: "try_candidate E rc p m s = (res, s1)" by (cases "try_candidate E rc p m s")
  then have l: "request_log s1 = request_log s" using try_candidate_cases by blast
  show ?case
  proof (cases res)
    case (Inl e)
    then show ?thesis using t l Cons.IH [of "Some e" s1] by simp
  next
    case (Inr r)
    then show ?thesis using t l by simp
  qed
qed

lemma attempts_loop_log:
  "request_log (snd (attempts_loop E rc retries as p le s)) = request_log s"
proof (induction as arbitrary: p le s)
  case Nil
  show ?case by simp
next
  case (Cons a as)
  obtain r le1 s1 where c: "candidates_loop E rc p (MODEL_CANDIDATES E) le s = ((r, le1), s1)"
    by (metis surj_pair)
  then have l: "request_log s1 = request_log s"
    using candidates_loop_log [of E rc p "MODEL_CANDIDATES E" le s] by simp
  show ?case
  proof (cases r)
    case None
    then show ?thesis using c l Cons.IH [of "p @ retry_suffix" le1 s1] by simp
  next
    case (Some x)
    then show ?thesis using c l by simp
  qed
qed

lemma call_gemini_with_retry_log:
  "request_log (snd (call_gemini_with_retry E p retries rc s)) = request_log s"
  by (simp add: call_gemini_with_retry_def attempts_loop_log)

section \<open>The handlers: requests without resume and role title\<close>

lemma enforce_rate_limit_admitted:
  "fst (enforce_rate_limit now c s) = Inr () \<Longrightarrow>
   enforce_rate_limit now c s =
     (Inr (), s\<lparr>request_log := (request_log s)(c \<mapsto> prune now (queue_of s c) @ [now])\<rparr>)"
  by (simp add: enforce_rate_limit_def Let_def split: if_splits)

lemma enforce_rate_limit_rejected:
  "fst (enforce_rate_limit now c s) = Inl e \<Longrightarrow>
   enforce_rate_limit now c s =
     (Inl rate_limited, s\<lparr>request_log := (request_log s)(c \<mapsto> prune now (queue_of s c))\<rparr>)"
  by (simp add: enforce_rate_limit_def Let_def split: if_splits)

lemma review_resume_log:
  "request_log (snd (review_resume E now data client s))
     = request_log (snd (enforce_rate_limit now (client_ip_of client) s))"
proof (cases "enforce_rate_limit now (client_ip_of client) s")
  case (Pair res s1)
  show ?thesis
  proof (cases res)
    case (Inl e)
    then show ?thesis using Pair by (simp add: review_resume_def)
  next
    case (Inr x)
    then show ?thesis using Pair
      by (simp add: review_resume_def Let_def call_gemini_with_retry_log)
  qed
qed

text \<open>
  Claim C9.  When the rate limiter admits the request and both the resume and the role
  title are empty after trimming, whatever the job description is, \<open>/review\<close> and
  \<open>/tailor\<close> answer with the 400 error, and no generation call is made: the history of
  calls and the active model are what they were.
\<close>

theorem review_resume_empty_request:
  "fst (enforce_rate_limit now (client_ip_of client) s) = Inr ()
     \<and> strip (resume data) = [] \<and> strip (role_title data) = [] \<longrightarrow>
   fst (review_resume E now data client s)
     = Inl (HTTPException 400 (u ''Provide a resume or a target role title.''))
   \<and> calls (snd (review_resume E now data client s)) = calls s
   \<and> ACTIVE_MODEL_NAME (snd (review_resume E now data client s)) = ACTIVE_MODEL_NAME s
   \<and> fst (tailor_alias E now data client s)
     = Inl (HTTPException 400 (u ''Provide a resume or a target role title.''))
   \<and> calls (snd (tailor_alias E now data client s)) = calls s"
proof (intro impI)
  assume a: "fst (enforce_rate_limit now (client_ip_of client) s) = Inr ()
     \<and> strip (resume data) = [] \<and> strip (role_title data) = []"
  let ?c = "client_ip_of client"
  let ?s1 = "s\<lparr>request_log := (request_log s)(?c \<mapsto> prune now (queue_of s ?c) @ [now])\<rparr>"
  have e: "enforce_rate_limit now ?c s = (Inr (), ?s1)"
    using a by (intro enforce_rate_limit_admitted) simp
  have r: "review_resume E now data client s = (Inl invalid_request, ?s1)"
    unfolding review_resume_def e using a by simp
  show "fst (review_resume E now data client s)
     = Inl (HTTPException 400 (u ''Provide a resume or a target role title.''))
   \<and> calls (snd (review_resume E now data client s)) = calls s
   \<and> ACTIVE_MODEL_NAME (snd (review_resume E now data client s)) = ACTIVE_MODEL_NAME s
   \<and> fst (tailor_alias E now data client s)
     = Inl (HTTPException 400 (u ''Provide a resume or a target role title.''))
   \<and> calls (snd (tailor_alias E now data client s)) = calls s"
    unfolding tailor_alias_def r by (simp add: invalid_request_def)
qed

text \<open>
  Claim C10.  The rate-limit check runs before the validation of the request.  After
  every \<open>/review\<close> or \<open>/tailor\<close> call that the limiter admits, whatever the handler
  answers, the client's queue is the pruned queue with the clock reading appended; in
  particular a request with empty resume and role title is answered with the 400 error
  in a state that differs from the one before in this queue only.  A call that the
  limiter rejects is answered with the 429 error, also when the request is invalid.
\<close>

theorem review_resume_consumes_capacity:
  "(fst (enforce_rate_limit now (client_ip_of client) s) = Inr () \<longrightarrow>
      queue_of (snd (review_resume E now data client s)) (client_ip_of client)
        = prune now (queue_of s (client_ip_of client)) @ [now]
      \<and> queue_of (snd (tailor_alias E now data client s)) (client_ip_of client)
        = prune now (queue_of s (client_ip_of client)) @ [now])
   \<and> (fst (enforce_rate_limit now (client_ip_of client) s) = Inr ()
        \<and> strip (resume data) = [] \<and> strip (role_title data) = [] \<longrightarrow>
      review_resume E now data client s =
        (Inl (HTTPException 400 (u ''Provide a resume or a target role title.'')),
         s\<lparr>request_log := (request_log s)
             (client_ip_of client \<mapsto> prune now (queue_of s (client_ip_of client)) @ [now])\<rparr>))
   \<and> (fst (enforce_rate_limit now (client_ip_of client) s) \<noteq> Inr () \<longrightarrow>
      fst (review_resume E now data client s)
        = Inl (HTTPException 429 (u ''Rate limit exceeded. Try again soon.''))
      \<and> queue_of (snd (review_resume E now data client s)) (client_ip_of client)
        = prune now (queue_of s (client_ip_of client)))"
proof (intro conjI impI)
  let ?c = "client_ip_of client"
  let ?s1 = "s\<lparr>request_log := (request_log s)(?c \<mapsto> prune now (queue_of s ?c) @ [now])\<rparr>"
  {
    assume a: "fst (enforce_rate_limit now ?c s) = Inr ()"
    then have e: "enforce_rate_limit now ?c s = (Inr (), ?s1)"
      by (rule enforce_rate_limit_admitted)
    have "request_log (snd (review_resume E now data client s)) = request_log ?s1"
      using review_resume_log [of E now data client s] e by simp
    then show "queue_of (snd (review_resume E now data client s)) ?c
        = prune now (queue_of s ?c) @ [now]"
      by (simp add: queue_of_def)
    then show "queue_of (snd (tailor_alias E now data client s)) ?c
        = prune now (queue_of s ?c) @ [now]"
      by (simp add: tailor_alias_def)
  }
  {
    assume a: "fst (enforce_rate_limit now ?c s) = Inr ()
        \<and> strip (resume data) = [] \<and> strip (role_title data) = []"
    then have e: "enforce_rate_limit now ?c s = (Inr (), ?s1)"
      by (intro enforce_rate_limit_admitted) simp
    show "review_resume E now data client s =
        (Inl (HTTPException 400 (u ''Provide a resume or a target role title.'')), ?s1)"
      unfolding review_resume_def e using a by (simp add: invalid_request_def)
  }
  {
    assume a: "fst (enforce_rate_limit now ?c s) \<noteq> Inr ()"
    then obtain e where "fst (enforce_rate_limit now ?c s) = Inl e"
      by (cases "fst (enforce_rate_limit now ?c s)") auto
    then have e: "enforce_rate_limit now ?c s =
        (Inl rate_limited, s\<lparr>request_log := (request_log s)(?c \<mapsto> prune now (queue_of s ?c))\<rparr>)"
      by (rule enforce_rate_limit_rejected)
    show "fst (review_resume E now data client s)
        = Inl (HTTPException 429 (u ''Rate limit exceeded. Try again soon.''))"
      unfolding review_resume_def e by (simp add: rate_limited_def)
    show "queue_of (snd (review_resume E now data client s)) ?c = prune now (queue_of s ?c)"
      unfolding review_resume_def e by (simp add: queue_of_def)
  }
qed


text \<open>The theorem for C9 at a request with a job description only, from a client not
  seen before.\<close>

theorem review_resume_empty_request_witness:
  "fst (enforce_rate_limit 7 (client_ip_of None) fresh) = Inr ()
   \<and> strip (resume empty_request) = [] \<and> strip (role_title empty_request) = []
   \<and> fst (review_resume env_empty_object 7 empty_request None fresh)
       = Inl (HTTPException 400 (u ''Provide a resume or a target role title.''))
   \<and> calls (snd (review_resume env_empty_object 7 empty_request None fresh)) = []
   \<and> ACTIVE_MODEL_NAME (snd (review_resume env_empty_object 7 empty_request None fresh)) = None
   \<and> fst (tailor_alias env_empty_object 7 empty_request None fresh)
       = Inl (HTTPException 400 (u ''Provide a resume or a target role title.''))
   \<and> calls (snd (tailor_alias env_empty_object 7 empty_request None fresh)) = []"
proof -
  have adm: "fst (enforce_rate_limit 7 (client_ip_of None) fresh) = Inr ()"
    by (simp add: enforce_rate_limit_def queue_of_def fresh_def RATE_LIMIT_def)
  have emp: "strip (resume empty_request) = [] \<and> strip (role_title empty_request) = []"
    by (simp add: empty_request_def strip_def strip_where_def u_def is_space_def)
  have st: "calls fresh = [] \<and> ACTIVE_MODEL_NAME fresh = None" by (simp add: fresh_def)
  show ?thesis
    using adm emp st
      review_resume_empty_request [of 7 None fresh empty_request env_empty_object]
    by simp
qed

text \<open>
  The theorem for C10 at the same request, at a request with a role title (which calls
  the model), and at a client with thirty requests on record.
\<close>

theorem review_resume_consumes_capacity_witness:
  "fst (enforce_rate_limit 7 (client_ip_of None) fresh) = Inr ()
   \<and> strip (resume empty_request) = [] \<and> strip (role_title empty_request) = []
   \<and> queue_of fresh (client_ip_of None) = []
   \<and> fst (review_resume env_empty_object 7 empty_request None fresh)
       = Inl (HTTPException 400 (u ''Provide a resume or a target role title.''))
   \<and> queue_of (snd (review_resume env_empty_object 7 empty_request None fresh)) (client_ip_of None)
       = [7]
   \<and> queue_of (snd (tailor_alias env_empty_object 7 empty_request None fresh)) (client_ip_of None)
       = [7]
   \<and> queue_of (snd (review_resume env_empty_object 7 outline_request None fresh)) (client_ip_of None)
       = [7]
   \<and> fst (enforce_rate_limit 10 (client_ip_of (Some (u ''10.0.0.1''))) busy) \<noteq> Inr ()
   \<and> fst (review_resume env_empty_object 10 empty_request (Some (u ''10.0.0.1'')) busy)
       = Inl (HTTPException 429 (u ''Rate limit exceeded. Try again soon.''))
   \<and> queue_of (snd (review_resume env_empty_object 10 empty_request (Some (u ''10.0.0.1'')) busy))
        (client_ip_of (Some (u ''10.0.0.1''))) = 0 # replicate 29 5"
proof -
  have adm: "fst (enforce_rate_limit 7 (client_ip_of None) fresh) = Inr ()"
    by (simp add: enforce_rate_limit_def queue_of_def fresh_def RATE_LIMIT_def)
  have emp: "strip (resume empty_request) = [] \<and> strip (role_title empty_request) = []"
    by (simp add: empty_request_def strip_def strip_where_def u_def is_space_def)
  have qf: "queue_of fresh (client_ip_of None) = []" by (simp add: queue_of_def fresh_def)
  have qb: "queue_of busy (client_ip_of (Some (u ''10.0.0.1''))) = 0 # replicate 29 5"
    by (simp add: queue_of_def busy_def client_ip_of_def)
  have pb: "prune 10 (0 # replicate 29 5) = 0 # replicate 29 5"
    by (simp add: RATE_WINDOW_SECONDS_def)
  have rej: "fst (enforce_rate_limit 10 (client_ip_of (Some (u ''10.0.0.1''))) busy) \<noteq> Inr ()"
    unfolding enforce_rate_limit_def Let_def qb pb by (simp add: RATE_LIMIT_def)
  note a = review_resume_consumes_capacity [of 7 None fresh env_empty_object empty_request]
  note b = review_resume_consumes_capacity [of 7 None fresh env_empty_object outline_request]
  note c = review_resume_consumes_capacity
    [of 10 "Some (u ''10.0.0.1'')" busy env_empty_object empty_request]
  have a1: "queue_of (snd (review_resume env_empty_object 7 empty_request None fresh))
        (client_ip_of None) = prune 7 (queue_of fresh (client_ip_of None)) @ [7]"
    and a2: "queue_of (snd (tailor_alias env_empty_object 7 empty_request None fresh))
        (client_ip_of None) = prune 7 (queue_of fresh (client_ip_of None)) @ [7]"
    using a adm by blast+
  have a3: "fst (review_resume env_empty_object 7 empty_request None fresh)
       = Inl (HTTPException 400 (u ''Provide a resume or a target role title.''))"
    using a adm emp by simp
  have b1: "queue_of (snd (review_resume env_empty_object 7 outline_request None fresh))
        (client_ip_of None) = prune 7 (queue_of fresh (client_ip_of None)) @ [7]"
    using b adm by blast
  have c1: "fst (review_resume env_empty_object 10 empty_request (Some (u ''10.0.0.1'')) busy)
       = Inl (HTTPException 429 (u ''Rate limit exceeded. Try again soon.''))"
    and c2: "queue_of (snd (review_resume env_empty_object 10 empty_request (Some (u ''10.0.0.1'')) busy))
        (client_ip_of (Some (u ''10.0.0.1'')))
        = prune 10 (queue_of busy (client_ip_of (Some (u ''10.0.0.1''))))"
    using c rej by blast+
  have c3: "queue_of (snd (review_resume env_empty_object 10 empty_request (Some (u ''10.0.0.1'')) busy))
        (client_ip_of (Some (u ''10.0.0.1''))) = 0 # replicate 29 5"
    using c2 unfolding qb pb .
  show ?thesis
    using adm emp rej a3 c1
    by (simp add: a1 a2 b1 c3 qf)
qed

section \<open>The example runs\<close>

lemma upto_0_2: "[0..2::int] = [0, 1, 2]"
  by (simp add: upto_rec1)

lemma candidates_empty_object: "MODEL_CANDIDATES env_empty_object = [u ''m1'']"
  by (simp add: MODEL_CANDIDATES_def ENV_MODELS_def env_empty_object_def u_def strip_def
      strip_where_def is_space_def)

lemma candidates_second_answers: "MODEL_CANDIDATES env_second_answers = [u ''m1'', u ''m2'']"
  by (simp add: MODEL_CANDIDATES_def ENV_MODELS_def env_second_answers_def u_def strip_def
      strip_where_def is_space_def)

lemma candidates_second_missing: "MODEL_CANDIDATES env_second_missing = [u ''m1'', u ''m2'']"
  by (simp add: MODEL_CANDIDATES_def ENV_MODELS_def env_second_missing_def u_def strip_def
      strip_where_def is_space_def)

lemma candidates_none_found: "MODEL_CANDIDATES env_none_found = [u ''m1'', u ''m2'']"
  by (simp add: MODEL_CANDIDATES_def ENV_MODELS_def env_none_found_def u_def strip_def
      strip_where_def is_space_def)

lemma extract_json_braces: "extract_json (u ''{}'') = u ''{}''"
  by (simp add: extract_json_def strip_fences_def search_braces_def strip_def strip_where_def
      u_def is_space_def)

lemma extract_json_sorry: "extract_json (u ''Sorry, no.'') = u ''Sorry, no.''"
  by (simp add: extract_json_def strip_fences_def search_braces_def strip_def strip_where_def
      u_def is_space_def)

lemma extract_json_sample: "extract_json sample_reply = sample_reply"
  by (simp add: extract_json_def strip_fences_def search_braces_def strip_def strip_where_def
      u_def is_space_def sample_reply_def)

lemma loads_braces: "loads_sample (u ''{}'') = Inr (JObj [])"
  by (simp add: loads_sample_def)

lemma loads_sorry: "loads_sample (u ''Sorry, no.'') = Inl decode_error"
  by (simp add: loads_sample_def u_def sample_reply_def)

lemma loads_sample_reply: "loads_sample sample_reply = Inr sample_payload"
  by (simp add: loads_sample_def u_def sample_reply_def)

lemma m2_not_m1: "u ''m2'' \<noteq> u ''m1''"
  by (simp add: u_def)

lemma unavailable_not_found: "unavailable (exc_str not_found)"
  by (simp add: unavailable_def not_found_def u_def)

lemma available_decode_error: "\<not> unavailable (exc_str decode_error)"
  by (simp add: unavailable_def decode_error_def u_def)

lemma available_missing_fields: "\<not> unavailable (exc_str missing_fields)"
  by (simp add: unavailable_def missing_fields_def u_def)

lemma details_differ: "no_model_detail \<noteq> parse_detail"
  by (simp add: no_model_detail_def parse_detail_def u_def)

lemma normalize_empty_object:
  "normalize_response repr_plain (JObj []) True = Inl missing_fields"
  "normalize_response repr_plain (JObj []) False = Inr blank_response"
  by (simp_all add: normalize_response_def normalize_dict_def normalize_section_def dict_get_def
      coerce_list_def py_str_def strip_def strip_where_def blank_response_def no_feedback_def Let_def)

lemma normalize_sample:
  "normalize_response repr_plain sample_payload rc = Inr sample_response"
  by (simp add: normalize_response_def normalize_dict_def normalize_section_def dict_get_def
      coerce_list_def py_str_def strip_def strip_where_def sample_response_def no_feedback_def
      sample_payload_def u_def is_space_def Let_def)

lemma try_empty_object:
  "try_candidate env_empty_object True p (u ''m1'') s =
     (Inl missing_fields,
      record_call (u ''m1'') p (Some missing_fields) (s\<lparr>ACTIVE_MODEL_NAME := Some (u ''m1'')\<rparr>))"
  "try_candidate env_empty_object False p (u ''m1'') s =
     (Inr blank_response,
      record_call (u ''m1'') p None (s\<lparr>ACTIVE_MODEL_NAME := Some (u ''m1'')\<rparr>))"
  by (simp_all add: try_candidate_def env_empty_object_def extract_json_braces loads_braces
      normalize_empty_object)

lemma try_second_answers:
  "try_candidate env_second_answers rc p (u ''m1'') s =
     (Inl decode_error, record_call (u ''m1'') p (Some decode_error) s)"
  "try_candidate env_second_answers rc p (u ''m2'') s =
     (Inr sample_response,
      record_call (u ''m2'') p None (s\<lparr>ACTIVE_MODEL_NAME := Some (u ''m2'')\<rparr>))"
  by (simp_all add: try_candidate_def env_second_answers_def extract_json_sorry loads_sorry
      extract_json_sample loads_sample_reply normalize_sample m2_not_m1)

lemma try_second_missing:
  "try_candidate env_second_missing rc p (u ''m1'') s =
     (Inl decode_error, record_call (u ''m1'') p (Some decode_error) s)"
  "try_candidate env_second_missing rc p (u ''m2'') s =
     (Inl not_found, record_call (u ''m2'') p (Some not_found) s)"
  by (simp_all add: try_candidate_def env_second_missing_def extract_json_sorry loads_sorry
      m2_not_m1)

lemma try_none_found:
  "try_candidate env_none_found rc p m s = (Inl not_found, record_call m p (Some not_found) s)"
  by (simp add: try_candidate_def env_none_found_def)

lemma run_empty_object_required:
  "call_gemini_with_retry env_empty_object p 2 True s =
     (Inl (HTTPException 500 parse_detail),
      s\<lparr>ACTIVE_MODEL_NAME := Some (u ''m1''),
         calls := calls s @
           [Call (u ''m1'') p (Some missing_fields),
            Call (u ''m1'') (p @ retry_suffix) (Some missing_fields),
            Call (u ''m1'') ((p @ retry_suffix) @ retry_suffix) (Some missing_fields)]\<rparr>)"
  by (simp add: call_gemini_with_retry_def upto_0_2 candidates_empty_object try_empty_object
      record_call_def exhausted_detail_def available_missing_fields)

lemma run_empty_object_optional:
  "call_gemini_with_retry env_empty_object p 2 False s =
     (Inr (Some blank_response),
      s\<lparr>ACTIVE_MODEL_NAME := Some (u ''m1''), calls := calls s @ [Call (u ''m1'') p None]\<rparr>)"
  by (simp add: call_gemini_with_retry_def upto_0_2 candidates_empty_object try_empty_object
      record_call_def)

lemma run_second_answers:
  "call_gemini_with_retry env_second_answers p 2 rc s =
     (Inr (Some sample_response),
      s\<lparr>ACTIVE_MODEL_NAME := Some (u ''m2''),
         calls := calls s @ [Call (u ''m1'') p (Some decode_error), Call (u ''m2'') p None]\<rparr>)"
  by (simp add: call_gemini_with_retry_def upto_0_2 candidates_second_answers try_second_answers
      record_call_def)

lemma run_second_missing:
  "call_gemini_with_retry env_second_missing p 2 rc s =
     (Inl (HTTPException 500 no_model_detail),
      s\<lparr>calls := calls s @
           [Call (u ''m1'') p (Some decode_error),
            Call (u ''m2'') p (Some not_found),
            Call (u ''m1'') (p @ retry_suffix) (Some decode_error),
            Call (u ''m2'') (p @ retry_suffix) (Some not_found),
            Call (u ''m1'') ((p @ retry_suffix) @ retry_suffix) (Some decode_error),
            Call (u ''m2'') ((p @ retry_suffix) @ retry_suffix) (Some not_found)]\<rparr>)"
  by (simp add: call_gemini_with_retry_def upto_0_2 candidates_second_missing try_second_missing
      record_call_def exhausted_detail_def unavailable_not_found)

lemma run_none_found:
  "call_gemini_with_retry env_none_found p 2 rc s =
     (Inl (HTTPException 500 no_model_detail),
      s\<lparr>calls := calls s @
           [Call (u ''m1'') p (Some not_found),
            Call (u ''m2'') p (Some not_found),
            Call (u ''m1'') (p @ retry_suffix) (Some not_found),
            Call (u ''m2'') (p @ retry_suffix) (Some not_found),
            Call (u ''m1'') ((p @ retry_suffix) @ retry_suffix) (Some not_found),
            Call (u ''m2'') ((p @ retry_suffix) @ retry_suffix) (Some not_found)]\<rparr>)"
  by (simp add: call_gemini_with_retry_def upto_0_2 candidates_none_found try_none_found
      record_call_def exhausted_detail_def unavailable_not_found)

section \<open>The model invoker: outcomes\<close>

lemma MODEL_CANDIDATES_nonempty: "MODEL_CANDIDATES E \<noteq> []"
  by (simp add: MODEL_CANDIDATES_def DEFAULT_MODELS_def)

lemma candidates_loop_fail:
  "candidates_loop E rc p ms le s = ((None, le'), s') \<Longrightarrow>
   \<exists>T. calls s' = calls s @ T \<and> map call_model T = ms \<and> (\<forall>k\<in>set T. call_error k \<noteq> None)
       \<and> le' = (if ms = [] then le else call_error (last T))"
proof (induction ms arbitrary: le s)
  case Nil
  then show ?case by simp
next
  case (Cons m ms)
  obtain res s1 where t: "try_candidate E rc p m s = (res, s1)"
    by (cases "try_candidate E rc p m s")
  show ?case
  proof (cases res)
    case (Inr r)
    then show ?thesis using Cons.prems t by simp
  next
    case (Inl e)
    have c1: "calls s1 = calls s @ [Call m p (Some e)]"
      using try_candidate_cases [OF t] Inl by simp
    have "candidates_loop E rc p ms (Some e) s1 = ((None, le'), s')"
      using Cons.prems t Inl by simp
    then obtain T where T: "calls s' = calls s1 @ T" "map call_model T = ms"
        "\<forall>k\<in>set T. call_error k \<noteq> None"
        "le' = (if ms = [] then Some e else call_error (last T))"
      using Cons.IH by blast
    let ?T = "Call m p (Some e) # T"
    have f1: "calls s' = calls s @ ?T" using T(1) c1 by simp
    have f2: "map call_model ?T = m # ms" using T(2) by simp
    have f3: "\<forall>k\<in>set ?T. call_error k \<noteq> None" using T(3) by simp
    have f4: "le' = (if m # ms = [] then le else call_error (last ?T))"
      using T(2,4) by (cases "ms = []") auto
    show ?thesis by (rule exI [of _ ?T]) (intro conjI f1 f2 f3 f4)
  qed
qed

lemma candidates_loop_success:
  "candidates_loop E rc p ms le s = ((Some r, le'), s') \<Longrightarrow>
   \<exists>T m. calls s' = calls s @ T @ [Call m p None]
       \<and> attempt_result E rc (length (calls s @ T)) m p = Inr r"
proof (induction ms arbitrary: le s)
  case Nil
  then show ?case by simp
next
  case (Cons m ms)
  obtain res s1 where t: "try_candidate E rc p m s = (res, s1)"
    by (cases "try_candidate E rc p m s")
  show ?case
  proof (cases res)
    case (Inr r')
    then have "r' = r" "s1 = s'" using Cons.prems t by simp_all
    then have "calls s' = calls s @ [] @ [Call m p None]"
        "attempt_result E rc (length (calls s @ [])) m p = Inr r"
      using try_candidate_cases [OF t] Inr by simp_all
    then show ?thesis by blast
  next
    case (Inl e)
    have c1: "calls s1 = calls s @ [Call m p (Some e)]"
      using try_candidate_cases [OF t] Inl by simp
    have "candidates_loop E rc p ms (Some e) s1 = ((Some r, le'), s')"
      using Cons.prems t Inl by simp
    then obtain T m' where T: "calls s' = calls s1 @ T @ [Call m' p None]"
        "attempt_result E rc (length (calls s1 @ T)) m' p = Inr r"
      using Cons.IH by blast
    let ?T = "Call m p (Some e) # T"
    have "calls s' = calls s @ ?T @ [Call m' p None]" using T(1) c1 by simp
    moreover have "attempt_result E rc (length (calls s @ ?T)) m' p = Inr r"
      using T(2) c1 by simp
    ultimately show ?thesis by blast
  qed
qed

lemma attempts_loop_fail:
  "attempts_loop E rc retries as p le s = (Inl e, s') \<Longrightarrow>
   \<exists>T. calls s' = calls s @ T \<and> T \<noteq> [] \<and> (\<forall>k\<in>set T. call_error k \<noteq> None)
       \<and> map call_model T =
           concat (replicate (Suc (length (takeWhile (\<lambda>a. a \<noteq> retries) as))) (MODEL_CANDIDATES E))
       \<and> e = HTTPException 500 (exhausted_detail (call_error (last T)))"
proof (induction as arbitrary: p le s)
  case Nil
  then show ?case by simp
next
  case (Cons a as)
  obtain r le1 s1 where c: "candidates_loop E rc p (MODEL_CANDIDATES E) le s = ((r, le1), s1)"
    by (metis surj_pair)
  show ?case
  proof (cases r)
    case (Some x)
    then show ?thesis using Cons.prems c by simp
  next
    case None
    then obtain T1 where T1: "calls s1 = calls s @ T1" "map call_model T1 = MODEL_CANDIDATES E"
        "\<forall>k\<in>set T1. call_error k \<noteq> None" "le1 = call_error (last T1)"
      using candidates_loop_fail [of E rc p "MODEL_CANDIDATES E" le s le1 s1] c
        MODEL_CANDIDATES_nonempty [of E] by auto
    have ne: "T1 \<noteq> []" using T1(2) MODEL_CANDIDATES_nonempty [of E] by auto
    show ?thesis
    proof (cases "a = retries")
      case True
      then have g: "e = HTTPException 500 (exhausted_detail le1)" "s' = s1"
        using Cons.prems c None by simp_all
      have f1: "calls s' = calls s @ T1" using g(2) T1(1) by simp
      have f3: "map call_model T1 =
          concat (replicate (Suc (length (takeWhile (\<lambda>a. a \<noteq> retries) (a # as))))
            (MODEL_CANDIDATES E))"
        using True T1(2) by simp
      have f4: "e = HTTPException 500 (exhausted_detail (call_error (last T1)))"
        using g(1) T1(4) by simp
      show ?thesis by (rule exI [of _ T1]) (intro conjI f1 ne T1(3) f3 f4)
    next
      case False
      then have "attempts_loop E rc retries as (p @ retry_suffix) le1 s1 = (Inl e, s')"
        using Cons.prems c None by simp
      then obtain T2 where T2: "calls s' = calls s1 @ T2" "T2 \<noteq> []"
          "\<forall>k\<in>set T2. call_error k \<noteq> None"
          "e = HTTPException 500 (exhausted_detail (call_error (last T2)))"
          "map call_model T2 =
             concat (replicate (Suc (length (takeWhile (\<lambda>a. a \<noteq> retries) as)))
               (MODEL_CANDIDATES E))"
        using Cons.IH by blast
      have f1: "calls s' = calls s @ (T1 @ T2)" using T1(1) T2(1) by simp
      have f2: "T1 @ T2 \<noteq> []" using ne by simp
      have f3: "\<forall>k\<in>set (T1 @ T2). call_error k \<noteq> None" using T1(3) T2(3) by auto
      have f5: "e = HTTPException 500 (exhausted_detail (call_error (last (T1 @ T2))))"
        using T2(2,4) by simp
      have f4: "map call_model (T1 @ T2) =
          concat (replicate (Suc (length (takeWhile (\<lambda>a. a \<noteq> retries) (a # as))))
            (MODEL_CANDIDATES E))"
        using False T1(2) T2(5) by simp
      show ?thesis by (rule exI [of _ "T1 @ T2"]) (intro conjI f1 f2 f3 f4 f5)
    qed
  qed
qed

lemma attempts_loop_success:
  "attempts_loop E rc retries as p le s = (Inr (Some r), s') \<Longrightarrow>
   \<exists>T m q. calls s' = calls s @ T @ [Call m q None]
       \<and> attempt_result E rc (length (calls s @ T)) m q = Inr r"
proof (induction as arbitrary: p le s)
  case Nil
  then show ?case by simp
next
  case (Cons a as)
  obtain r1 le1 s1 where c: "candidates_loop E rc p (MODEL_CANDIDATES E) le s = ((r1, le1), s1)"
    by (metis surj_pair)
  show ?case
  proof (cases r1)
    case (Some x)
    then have "x = r" "s1 = s'" using Cons.prems c by simp_all
    then show ?thesis using candidates_loop_success [of E rc p "MODEL_CANDIDATES E" le s r le1 s']
        c Some by blast
  next
    case None
    then obtain T1 where T1: "calls s1 = calls s @ T1"
      using candidates_loop_fail [of E rc p "MODEL_CANDIDATES E" le s le1 s1] c by blast
    have nr: "a \<noteq> retries" using Cons.prems c None by (auto split: if_splits)
    then have "attempts_loop E rc retries as (p @ retry_suffix) le1 s1 = (Inr (Some r), s')"
      using Cons.prems c None by simp
    then obtain T2 m q where T2: "calls s' = calls s1 @ T2 @ [Call m q None]"
        "attempt_result E rc (length (calls s1 @ T2)) m q = Inr r"
      using Cons.IH by blast
    have "calls s' = calls s @ (T1 @ T2) @ [Call m q None]" using T1 T2(1) by simp
    moreover have "attempt_result E rc (length (calls s @ (T1 @ T2))) m q = Inr r"
      using T1 T2(2) by simp
    ultimately show ?thesis by blast
  qed
qed

lemma attempts_loop_returns:
  "as \<noteq> [] \<Longrightarrow> last as = retries \<Longrightarrow>
   fst (attempts_loop E rc retries as p le s) \<noteq> Inr None"
proof (induction as arbitrary: p le s)
  case Nil
  then show ?case by simp
next
  case (Cons a as)
  obtain r1 le1 s1 where c: "candidates_loop E rc p (MODEL_CANDIDATES E) le s = ((r1, le1), s1)"
    by (metis surj_pair)
  show ?case
  proof (cases r1)
    case (Some x)
    then show ?thesis using c by simp
  next
    case None
    show ?thesis
    proof (cases "a = retries")
      case True
      then show ?thesis using c None by simp
    next
      case False
      then have "as \<noteq> []" using Cons.prems by auto
      moreover then have "last as = retries" using Cons.prems by simp
      ultimately have "fst (attempts_loop E rc retries as (p @ retry_suffix) le1 s1) \<noteq> Inr None"
        by (rule Cons.IH)
      then show ?thesis using c None False by simp
    qed
  qed
qed

lemma call_gemini_with_retry_returns:
  "0 \<le> retries \<Longrightarrow> fst (call_gemini_with_retry E p retries rc s) \<noteq> Inr None"
proof -
  assume "0 \<le> retries"
  then have "[0..retries] = [0..retries - 1] @ [retries]" by (rule upto_rec2)
  then have "[0..retries] \<noteq> []" "last [0..retries] = retries" by simp_all
  then show ?thesis unfolding call_gemini_with_retry_def by (rule attempts_loop_returns)
qed


lemma rounds_upto:
  "0 \<le> retries \<Longrightarrow> length (takeWhile (\<lambda>a. a \<noteq> retries) [0..retries]) = nat retries"
proof -
  assume nn: "0 \<le> retries"
  then have u: "[0..retries] = [0..retries - 1] @ [retries]" by (rule upto_rec2)
  have "takeWhile (\<lambda>a. a \<noteq> retries) ([0..retries - 1] @ [retries]) = [0..retries - 1]"
    by (subst takeWhile_append2) auto
  then show ?thesis unfolding u using nn by simp
qed

text \<open>
  Claim C2, as the code has it.  With \<open>retries\<close> not negative, a call makes at least one
  generation call and either returns a response, the last call being the one that
  succeeded, or raises the 500 error.  In that case every attempt went through every
  candidate (the models called are the candidate list \<open>retries + 1\<close> times over) and
  every call failed, and the message is decided by the failure of the last call alone:
  it is the no-model message when the text of that exception contains \<open>not found\<close> or
  \<open>not supported\<close>, and the could-not-be-parsed message otherwise.  In particular it is
  the no-model message when every failure was an availability error.  The two messages
  differ.
\<close>

theorem exhausted_detail_by_last_failure:
  "0 \<le> retries \<longrightarrow>
   (\<exists>T. calls (snd (call_gemini_with_retry E prompt retries rc s)) = calls s @ T \<and> T \<noteq> []
      \<and> (case fst (call_gemini_with_retry E prompt retries rc s) of
            Inr r \<Rightarrow> r \<noteq> None \<and> call_error (last T) = None
          | Inl e \<Rightarrow>
              (\<forall>k\<in>set T. call_error k \<noteq> None)
              \<and> map call_model T = concat (replicate (nat retries + 1) (MODEL_CANDIDATES E))
              \<and> (\<exists>exc. call_error (last T) = Some exc
                   \<and> e = HTTPException 500
                       (if contains (exc_str exc) (u ''not found'')
                           \<or> contains (exc_str exc) (u ''not supported'')
                        then no_model_detail else parse_detail))
              \<and> ((\<forall>k\<in>set T. \<exists>exc. call_error k = Some exc \<and> unavailable (exc_str exc))
                   \<longrightarrow> e = HTTPException 500 no_model_detail)))
   \<and> no_model_detail \<noteq> parse_detail"
proof (intro conjI impI)
  show "no_model_detail \<noteq> parse_detail" by (rule details_differ)
next
  assume nn: "0 \<le> retries"
  let ?R = "call_gemini_with_retry E prompt retries rc s"
  obtain res s' where R: "?R = (res, s')" by (cases ?R)
  have a: "attempts_loop E rc retries [0..retries] prompt None s = (res, s')"
    using R by (simp add: call_gemini_with_retry_def)
  show "\<exists>T. calls (snd ?R) = calls s @ T \<and> T \<noteq> []
      \<and> (case fst ?R of
            Inr r \<Rightarrow> r \<noteq> None \<and> call_error (last T) = None
          | Inl e \<Rightarrow>
              (\<forall>k\<in>set T. call_error k \<noteq> None)
              \<and> map call_model T = concat (replicate (nat retries + 1) (MODEL_CANDIDATES E))
              \<and> (\<exists>exc. call_error (last T) = Some exc
                   \<and> e = HTTPException 500
                       (if contains (exc_str exc) (u ''not found'')
                           \<or> contains (exc_str exc) (u ''not supported'')
                        then no_model_detail else parse_detail))
              \<and> ((\<forall>k\<in>set T. \<exists>exc. call_error k = Some exc \<and> unavailable (exc_str exc))
                   \<longrightarrow> e = HTTPException 500 no_model_detail))"
  proof (cases res)
    case (Inl e)
    obtain T where T: "calls s' = calls s @ T" "T \<noteq> []" "\<forall>k\<in>set T. call_error k \<noteq> None"
        "e = HTTPException 500 (exhausted_detail (call_error (last T)))"
        "map call_model T =
           concat (replicate (Suc (length (takeWhile (\<lambda>a. a \<noteq> retries) [0..retries])))
             (MODEL_CANDIDATES E))"
      using attempts_loop_fail [OF a [unfolded Inl]] by blast
    have rounds: "map call_model T = concat (replicate (nat retries + 1) (MODEL_CANDIDATES E))"
      using T(5) rounds_upto [OF nn] by simp
    have "last T \<in> set T" using T(2) by simp
    then obtain exc where exc: "call_error (last T) = Some exc" using T(3) by auto
    have e1: "e = HTTPException 500
                       (if contains (exc_str exc) (u ''not found'')
                           \<or> contains (exc_str exc) (u ''not supported'')
                        then no_model_detail else parse_detail)"
      using T(4) exc by (simp add: exhausted_detail_def unavailable_def)
    have e2: "(\<forall>k\<in>set T. \<exists>exc. call_error k = Some exc \<and> unavailable (exc_str exc))
                   \<longrightarrow> e = HTTPException 500 no_model_detail"
    proof
      assume "\<forall>k\<in>set T. \<exists>exc. call_error k = Some exc \<and> unavailable (exc_str exc)"
      then have "unavailable (exc_str exc)" using \<open>last T \<in> set T\<close> exc by fastforce
      then show "e = HTTPException 500 no_model_detail"
        using T(4) exc by (simp add: exhausted_detail_def)
    qed
    show ?thesis unfolding R using Inl T(1,2,3) rounds exc e1 e2 by auto
  next
    case (Inr r)
    have "r \<noteq> None" using call_gemini_with_retry_returns [OF nn, of E prompt rc s] R Inr by auto
    then obtain x where x: "r = Some x" by auto
    obtain T m q where T: "calls s' = calls s @ T @ [Call m q None]"
      using attempts_loop_success [OF a [unfolded Inr x]] by blast
    have "calls s' = calls s @ (T @ [Call m q None])" "T @ [Call m q None] \<noteq> []"
        "call_error (last (T @ [Call m q None])) = None"
      using T by simp_all
    then show ?thesis unfolding R using Inr x by (intro exI [of _ "T @ [Call m q None]"]) simp
  qed
qed


text \<open>
  Claim C1 says that a candidate whose output fails validation never becomes the
  recorded active model.  With the one candidate \<open>m1\<close> answering \<open>{}\<close> and content
  required, \<open>json.loads\<close> succeeds, \<open>ACTIVE_MODEL_NAME = model_name\<close> is executed, and
  then \<open>normalize_response\<close> raises the validation error, in each of the three attempts:
  the call ends with the 500 error and \<open>m1\<close> is the recorded model, where \<open>None\<close> was
  recorded before.
\<close>

theorem active_model_before_validation:
  "ACTIVE_MODEL_NAME fresh = None
   \<and> fst (call_gemini_with_retry env_empty_object (u ''Review'') 2 True fresh)
       = Inl (HTTPException 500 (u ''AI response could not be parsed. Please try again.''))
   \<and> map call_error (calls (snd (call_gemini_with_retry env_empty_object (u ''Review'') 2 True fresh)))
       = [Some missing_fields, Some missing_fields, Some missing_fields]
   \<and> ACTIVE_MODEL_NAME (snd (call_gemini_with_retry env_empty_object (u ''Review'') 2 True fresh))
       = Some (u ''m1'')"
  by (simp add: run_empty_object_required fresh_def parse_detail_def)

text \<open>The theorem for C2 at two candidates that do not exist, with two retries.\<close>

theorem exhausted_detail_by_last_failure_witness:
  "0 \<le> (2::int)
   \<and> list_all (\<lambda>k. call_error k = Some not_found \<and> unavailable (exc_str not_found))
        (calls (snd (call_gemini_with_retry env_none_found (u ''Review'') 2 True fresh)))
   \<and> length (calls (snd (call_gemini_with_retry env_none_found (u ''Review'') 2 True fresh))) = 6
   \<and> fst (call_gemini_with_retry env_none_found (u ''Review'') 2 True fresh)
       = Inl (HTTPException 500 no_model_detail)
   \<and> no_model_detail \<noteq> parse_detail"
proof -
  let ?R = "call_gemini_with_retry env_none_found (u ''Review'') 2 True fresh"
  have z: "0 \<le> (2::int)" by simp
  note t = exhausted_detail_by_last_failure [of 2 env_none_found "u ''Review''" True fresh,
      THEN mp, OF z]
  have cf: "calls fresh = []" by (simp add: fresh_def)
  have c: "list_all (\<lambda>k. call_error k = Some not_found \<and> unavailable (exc_str not_found))
        (calls (snd ?R)) \<and> length (calls (snd ?R)) = 6"
    by (simp add: run_none_found cf unavailable_not_found)
  obtain e where e: "fst ?R = Inl e" by (simp add: run_none_found)
  from t obtain T where T: "calls (snd ?R) = calls fresh @ T"
      "(\<forall>k\<in>set T. \<exists>exc. call_error k = Some exc \<and> unavailable (exc_str exc))
         \<longrightarrow> e = HTTPException 500 no_model_detail"
    unfolding e by auto
  have "\<forall>k\<in>set T. \<exists>exc. call_error k = Some exc \<and> unavailable (exc_str exc)"
    using c T(1) unfolding cf list_all_iff by auto
  then have "e = HTTPException 500 no_model_detail" using T(2) by blast
  then show ?thesis using z c e t by simp
qed

text \<open>
  Claim C2 as stated fails: with the candidates \<open>m1\<close>, whose answer is no JSON, and \<open>m2\<close>,
  which does not exist, one failure of the run has another cause than availability (the
  first call fails in \<open>json.loads\<close>, with a message that contains neither \<open>not found\<close> nor
  \<open>not supported\<close>), and the message is the no-model one.
\<close>

theorem exhausted_detail_counterexample:
  "fst (call_gemini_with_retry env_second_missing (u ''Review'') 2 True fresh)
     = Inl (HTTPException 500
         (u ''No available Gemini model found. Set GEMINI_MODEL in the .env file.''))
   \<and> call_error (hd (calls (snd (call_gemini_with_retry env_second_missing (u ''Review'') 2 True fresh))))
     = Some decode_error
   \<and> \<not> contains (exc_str decode_error) (u ''not found'')
   \<and> \<not> contains (exc_str decode_error) (u ''not supported'')"
proof -
  have "no_model_detail
      = u ''No available Gemini model found. Set GEMINI_MODEL in the .env file.''"
    by (simp add: no_model_detail_def u_def)
  moreover have "calls fresh = []" by (simp add: fresh_def)
  ultimately show ?thesis
    using available_decode_error by (simp add: run_second_missing unavailable_def)
qed

section \<open>The outline path\<close>

lemma attempt_result_Inr:
  "attempt_result E rc n m q = Inr r \<Longrightarrow>
   \<exists>d. parsed_payload E n m q = Some (JObj d) \<and> normalize_dict (repr_str E) d rc = Inr r"
  by (auto simp: attempt_result_def parsed_payload_def normalize_response_def
      split: sum.splits json.splits)

lemma normalize_dict_optional:
  "normalize_dict R d False = Inr r \<Longrightarrow>
   match_level r = strip (py_str R (dict_get d (u ''match_level'') (JStr [])))
   \<and> resume_outline r = coerce_list R (dict_get d (u ''resume_outline'') (JList []))"
  by (auto simp: normalize_dict_def Let_def)

lemma backend_engineer_nonempty: "u ''Backend Engineer'' \<noteq> []"
  by (simp add: u_def)

text \<open>
  Claim C8, as the code has it.  For a request that the limiter admits, with an empty
  resume and the role title \<open>Backend Engineer\<close> after trimming, the handler calls the
  model with the outline prompt built from the role title and the trimmed job
  description, with two retries and \<open>require_content\<close> false.  When that call returns a
  response, the last generation call gave a JSON object, and the response's
  \<open>match_level\<close> and \<open>resume_outline\<close> are that object's own values, stringified and
  trimmed, and coerced to a list: nothing in the handler sets them.
\<close>

theorem review_resume_outline_path:
  "fst (enforce_rate_limit now (client_ip_of client) s) = Inr ()
     \<and> strip (resume data) = [] \<and> strip (role_title data) = u ''Backend Engineer'' \<longrightarrow>
   review_resume E now data client s
     = call_gemini_with_retry E
         (outline_prompt (u ''Backend Engineer'') (strip (job_description data))) 2 False
         (snd (enforce_rate_limit now (client_ip_of client) s))
   \<and> (\<forall>r. fst (review_resume E now data client s) = Inr (Some r) \<longrightarrow>
        (\<exists>d. parsed_payload E
               (length (calls (snd (review_resume E now data client s))) - 1)
               (call_model (last (calls (snd (review_resume E now data client s)))))
               (call_prompt (last (calls (snd (review_resume E now data client s)))))
             = Some (JObj d)
           \<and> match_level r = strip (py_str (repr_str E) (dict_get d (u ''match_level'') (JStr [])))
           \<and> resume_outline r
               = coerce_list (repr_str E) (dict_get d (u ''resume_outline'') (JList []))))"
proof (intro impI)
  assume a: "fst (enforce_rate_limit now (client_ip_of client) s) = Inr ()
     \<and> strip (resume data) = [] \<and> strip (role_title data) = u ''Backend Engineer''"
  let ?c = "client_ip_of client"
  let ?s1 = "s\<lparr>request_log := (request_log s)(?c \<mapsto> prune now (queue_of s ?c) @ [now])\<rparr>"
  let ?p = "outline_prompt (u ''Backend Engineer'') (strip (job_description data))"
  have e: "enforce_rate_limit now ?c s = (Inr (), ?s1)"
    using a by (intro enforce_rate_limit_admitted) simp
  have r: "review_resume E now data client s = call_gemini_with_retry E ?p 2 False ?s1"
    unfolding review_resume_def e using a backend_engineer_nonempty by (simp add: Let_def)
  have first: "review_resume E now data client s
     = call_gemini_with_retry E ?p 2 False (snd (enforce_rate_limit now ?c s))"
    unfolding r e by simp
  have second: "\<forall>r. fst (review_resume E now data client s) = Inr (Some r) \<longrightarrow>
        (\<exists>d. parsed_payload E
               (length (calls (snd (review_resume E now data client s))) - 1)
               (call_model (last (calls (snd (review_resume E now data client s)))))
               (call_prompt (last (calls (snd (review_resume E now data client s)))))
             = Some (JObj d)
           \<and> match_level r = strip (py_str (repr_str E) (dict_get d (u ''match_level'') (JStr [])))
           \<and> resume_outline r
               = coerce_list (repr_str E) (dict_get d (u ''resume_outline'') (JList [])))"
  proof (intro allI impI)
    fix x
    assume ok: "fst (review_resume E now data client s) = Inr (Some x)"
    obtain s' where R: "call_gemini_with_retry E ?p 2 False ?s1 = (Inr (Some x), s')"
      using ok unfolding r by (cases "call_gemini_with_retry E ?p 2 False ?s1") auto
    then have "attempts_loop E False 2 [0..2] ?p None ?s1 = (Inr (Some x), s')"
      by (simp add: call_gemini_with_retry_def)
    then obtain T m q where T: "calls s' = calls ?s1 @ T @ [Call m q None]"
        "attempt_result E False (length (calls ?s1 @ T)) m q = Inr x"
      using attempts_loop_success by blast
    obtain d where d: "parsed_payload E (length (calls ?s1 @ T)) m q = Some (JObj d)"
        "normalize_dict (repr_str E) d False = Inr x"
      using attempt_result_Inr [OF T(2)] by blast
    have l: "length (calls s') - 1 = length (calls ?s1 @ T)"
        "call_model (last (calls s')) = m" "call_prompt (last (calls s')) = q"
      using T(1) by simp_all
    have "parsed_payload E (length (calls s') - 1) (call_model (last (calls s')))
        (call_prompt (last (calls s'))) = Some (JObj d)"
      unfolding l using d(1) .
    then show "\<exists>d. parsed_payload E
               (length (calls (snd (review_resume E now data client s))) - 1)
               (call_model (last (calls (snd (review_resume E now data client s)))))
               (call_prompt (last (calls (snd (review_resume E now data client s)))))
             = Some (JObj d)
           \<and> match_level x = strip (py_str (repr_str E) (dict_get d (u ''match_level'') (JStr [])))
           \<and> resume_outline x
               = coerce_list (repr_str E) (dict_get d (u ''resume_outline'') (JList []))"
      unfolding r R using normalize_dict_optional [OF d(2)] by auto
  qed
  show "review_resume E now data client s
     = call_gemini_with_retry E ?p 2 False (snd (enforce_rate_limit now ?c s))
   \<and> (\<forall>r. fst (review_resume E now data client s) = Inr (Some r) \<longrightarrow>
        (\<exists>d. parsed_payload E
               (length (calls (snd (review_resume E now data client s))) - 1)
               (call_model (last (calls (snd (review_resume E now data client s)))))
               (call_prompt (last (calls (snd (review_resume E now data client s)))))
             = Some (JObj d)
           \<and> match_level r = strip (py_str (repr_str E) (dict_get d (u ''match_level'') (JStr [])))
           \<and> resume_outline r
               = coerce_list (repr_str E) (dict_get d (u ''resume_outline'') (JList []))))"
    using first second by (rule conjI)
qed

lemma outline_request_fields:
  "strip (resume outline_request) = []"
  "strip (role_title outline_request) = u ''Backend Engineer''"
  "strip (job_description outline_request) = []"
  by (simp_all add: outline_request_def strip_def strip_where_def u_def is_space_def)

lemma fresh_admitted: "fst (enforce_rate_limit 7 (client_ip_of None) fresh) = Inr ()"
  by (simp add: enforce_rate_limit_def queue_of_def fresh_def RATE_LIMIT_def)

text \<open>The theorem for C8 at a model whose reply has \<open>match_level\<close> \<open>Low\<close> and an outline
  of one line.\<close>

theorem review_resume_outline_path_witness:
  "fst (enforce_rate_limit 7 (client_ip_of None) fresh) = Inr ()
   \<and> strip (resume outline_request) = []
   \<and> strip (role_title outline_request) = u ''Backend Engineer''
   \<and> review_resume env_second_answers 7 outline_request None fresh
       = call_gemini_with_retry env_second_answers
           (outline_prompt (u ''Backend Engineer'') (strip (job_description outline_request))) 2 False
           (snd (enforce_rate_limit 7 (client_ip_of None) fresh))
   \<and> fst (review_resume env_second_answers 7 outline_request None fresh)
       = Inr (Some sample_response)
   \<and> match_level sample_response = u ''Low''
   \<and> resume_outline sample_response = [u ''Summary'']"
proof -
  have h: "fst (enforce_rate_limit 7 (client_ip_of None) fresh) = Inr ()
     \<and> strip (resume outline_request) = []
     \<and> strip (role_title outline_request) = u ''Backend Engineer''"
    using fresh_admitted outline_request_fields by simp
  note t = review_resume_outline_path [of 7 None fresh outline_request env_second_answers,
      THEN mp, OF h, THEN conjunct1]
  have "fst (review_resume env_second_answers 7 outline_request None fresh)
       = Inr (Some sample_response)"
    unfolding t by (simp add: run_second_answers)
  then show ?thesis using h t by (simp add: sample_response_def)
qed

text \<open>
  Claim C8 as stated fails: the reply \<open>{}\<close> is accepted by the normalizer on this path,
  and the response returned has an empty \<open>match_level\<close> and an empty \<open>resume_outline\<close>.
\<close>

theorem review_resume_outline_counterexample:
  "fst (enforce_rate_limit 7 (client_ip_of None) fresh) = Inr ()
   \<and> strip (resume outline_request) = []
   \<and> strip (role_title outline_request) = u ''Backend Engineer''
   \<and> normalize_response (repr_str env_empty_object) (JObj []) False = Inr blank_response
   \<and> fst (review_resume env_empty_object 7 outline_request None fresh) = Inr (Some blank_response)
   \<and> match_level blank_response \<noteq> u ''Low''
   \<and> resume_outline blank_response = []"
proof -
  have e: "enforce_rate_limit 7 (client_ip_of None) fresh =
      (Inr (), fresh\<lparr>request_log := (request_log fresh)
         (client_ip_of None \<mapsto> prune 7 (queue_of fresh (client_ip_of None)) @ [7])\<rparr>)"
    using fresh_admitted by (rule enforce_rate_limit_admitted)
  have "fst (review_resume env_empty_object 7 outline_request None fresh) = Inr (Some blank_response)"
    unfolding review_resume_def e
    by (simp add: outline_request_fields backend_engineer_nonempty run_empty_object_optional Let_def)
  moreover have "match_level blank_response \<noteq> u ''Low''" "resume_outline blank_response = []"
    by (simp_all add: blank_response_def u_def)
  moreover have "normalize_response (repr_str env_empty_object) (JObj []) False = Inr blank_response"
    by (simp add: env_empty_object_def normalize_empty_object)
  ultimately show ?thesis using fresh_admitted outline_request_fields by simp
qed

end
